theory Spec2Isabelle
  imports Complex_Main "HOL-Library.Word"
begin

section \<open>LoadingViewModel (ui/viewmodel/loading\_view.cpp)\<close>

subsection \<open>Values of type double\<close>

text \<open>
  A C++ \<open>double\<close> is an IEEE 754 binary64 value: a finite number, a negative zero,
  an infinity or a NaN. \<open>Fin r\<close> is the finite double whose value is the real \<open>r\<close>
  (\<open>Fin 0\<close> is the positive zero); it stands for a double when \<open>r\<close> is one of the
  numbers binary64 represents. Every arithmetic operation computes the exact real
  result and rounds it to the nearest double, ties to even (\<open>dround\<close>), so the results
  of operations are such numbers. Comparisons follow IEEE 754: every ordered comparison
  with a NaN is false, and the two zeros compare equal.
\<close>

datatype dbl = Fin real | NZero | PInf | NInf | NaN

fun is_nan :: "dbl \<Rightarrow> bool" where
  "is_nan NaN = True"
| "is_nan _ = False"

fun is_inf :: "dbl \<Rightarrow> bool" where
  "is_inf PInf = True"
| "is_inf NInf = True"
| "is_inf _ = False"

fun is_zero :: "dbl \<Rightarrow> bool" where
  "is_zero (Fin r) = (r = 0)"
| "is_zero NZero = True"
| "is_zero _ = False"

text \<open>The sign bit.\<close>

fun signbit :: "dbl \<Rightarrow> bool" where
  "signbit (Fin r) = (r < 0)"
| "signbit NZero = True"
| "signbit NInf = True"
| "signbit _ = False"

text \<open>The number a finite double stands for (both zeros stand for 0).\<close>

fun rval :: "dbl \<Rightarrow> real" where
  "rval (Fin r) = r"
| "rval _ = 0"

definition dzero :: "bool \<Rightarrow> dbl" where
  "dzero s = (if s then NZero else Fin 0)"

definition dinf :: "bool \<Rightarrow> dbl" where
  "dinf s = (if s then NInf else PInf)"

text \<open>\<open>a < b\<close> on doubles.\<close>

definition dlt :: "dbl \<Rightarrow> dbl \<Rightarrow> bool" where
  "dlt a b =
     (if is_nan a \<or> is_nan b then False
      else if a = PInf \<or> b = NInf then False
      else if a = NInf \<or> b = PInf then True
      else rval a < rval b)"

text \<open>\<open>a > b\<close> and \<open>a <= b\<close> on doubles.\<close>

definition dgt :: "dbl \<Rightarrow> dbl \<Rightarrow> bool" where
  "dgt a b = dlt b a"

definition dle :: "dbl \<Rightarrow> dbl \<Rightarrow> bool" where
  "dle a b =
     (if is_nan a \<or> is_nan b then False
      else if a = NInf \<or> b = PInf then True
      else if a = PInf \<or> b = NInf then False
      else rval a \<le> rval b)"

text \<open>Unary minus flips the sign bit.\<close>

fun dneg :: "dbl \<Rightarrow> dbl" where
  "dneg (Fin r) = (if r = 0 then NZero else Fin (- r))"
| "dneg NZero = Fin 0"
| "dneg PInf = NInf"
| "dneg NInf = PInf"
| "dneg NaN = NaN"

subsection \<open>Rounding to binary64\<close>

text \<open>\<open>pow2 e\<close> is \<open>2\<close> to the power \<open>e\<close>, for an integer \<open>e\<close>.\<close>

definition pow2 :: "int \<Rightarrow> real" where
  "pow2 e = (if 0 \<le> e then 2 ^ nat e else 1 / 2 ^ nat (- e))"

text \<open>
  The binary exponent of a positive real \<open>a\<close>: the \<open>e\<close> with
  \<open>2^e \<le> a < 2^(e+1)\<close>, kept within the range of binary64, \<open>-1022\<close> (where the
  subnormal numbers start) to \<open>1023\<close>. The search starts at 0 and runs upwards for
  \<open>a \<ge> 1\<close>, downwards otherwise.
\<close>

function bexp_up :: "real \<Rightarrow> int \<Rightarrow> int" where
  "bexp_up a e = (if e < 1023 \<and> pow2 (e + 1) \<le> a then bexp_up a (e + 1) else e)"
  by pat_completeness auto
termination
  by (relation "measure (\<lambda>(a, e). nat (1023 - e))") auto

function bexp_down :: "real \<Rightarrow> int \<Rightarrow> int" where
  "bexp_down a e = (if - 1022 < e \<and> a < pow2 e then bexp_down a (e - 1) else e)"
  by pat_completeness auto
termination
  by (relation "measure (\<lambda>(a, e). nat (e + 1022))") auto

declare bexp_up.simps [simp del]

declare bexp_down.simps [simp del]

definition bexp :: "real \<Rightarrow> int" where
  "bexp a = (if 1 \<le> a then bexp_up a 0 else bexp_down a 0)"

text \<open>The integer nearest to a real; a tie goes to the even one.\<close>

definition rne :: "real \<Rightarrow> int" where
  "rne m =
     (let f = \<lfloor>m\<rfloor>; r = m - of_int f
      in if r < 1 / 2 then f
         else if 1 / 2 < r then f + 1
         else if even f then f else f + 1)"

text \<open>
  The double nearest to a real \<open>x\<close>. With \<open>e\<close> the binary exponent of \<open>|x|\<close>, the
  doubles around \<open>|x|\<close> are the multiples of \<open>2^(e-52)\<close> (53 significant bits; for
  subnormal numbers the spacing is \<open>2^(-1074)\<close>): \<open>dround_at\<close> rounds the magnitude
  \<open>a\<close> to a multiple of \<open>2^q\<close>. A result of \<open>2^1024\<close> or more overflows to an
  infinity, and a result of zero keeps the sign: \<open>dfinish\<close>.
\<close>

definition dfinish :: "bool \<Rightarrow> real \<Rightarrow> dbl" where
  "dfinish neg r =
     (if pow2 1024 \<le> r then dinf neg
      else if r = 0 then dzero neg
      else Fin (if neg then - r else r))"

definition dround_at :: "bool \<Rightarrow> real \<Rightarrow> int \<Rightarrow> dbl" where
  "dround_at neg a q = dfinish neg (of_int (rne (a / pow2 q)) * pow2 q)"

definition dround :: "real \<Rightarrow> dbl" where
  "dround x = (if x = 0 then Fin 0 else dround_at (x < 0) \<bar>x\<bar> (bexp \<bar>x\<bar> - 52))"

subsection \<open>Arithmetic on doubles\<close>

text \<open>
  \<open>a + b\<close>: opposite infinities give NaN; a sum that is exactly zero is the positive
  zero unless both operands are negative zeros (round to nearest).
\<close>

definition dadd :: "dbl \<Rightarrow> dbl \<Rightarrow> dbl" where
  "dadd a b =
     (if is_nan a \<or> is_nan b then NaN
      else if is_inf a then (if is_inf b \<and> signbit a \<noteq> signbit b then NaN else a)
      else if is_inf b then b
      else if is_zero a \<and> is_zero b then dzero (signbit a \<and> signbit b)
      else dround (rval a + rval b))"

definition dsub :: "dbl \<Rightarrow> dbl \<Rightarrow> dbl" where
  "dsub a b = dadd a (dneg b)"

text \<open>\<open>a * b\<close>: zero times infinity is NaN; the sign is the exclusive or of the signs.\<close>

definition dmul :: "dbl \<Rightarrow> dbl \<Rightarrow> dbl" where
  "dmul a b =
     (if is_nan a \<or> is_nan b then NaN
      else if (is_inf a \<and> is_zero b) \<or> (is_zero a \<and> is_inf b) then NaN
      else if is_inf a \<or> is_inf b then dinf (signbit a \<noteq> signbit b)
      else if is_zero a \<or> is_zero b then dzero (signbit a \<noteq> signbit b)
      else dround (rval a * rval b))"

text \<open>
  \<open>a / b\<close>: no trap on a zero divisor. \<open>0 / 0\<close> and \<open>inf / inf\<close> are NaN, a non-zero
  number over zero is an infinity, and the sign is the exclusive or of the signs.
\<close>

definition ddiv :: "dbl \<Rightarrow> dbl \<Rightarrow> dbl" where
  "ddiv a b =
     (if is_nan a \<or> is_nan b then NaN
      else if (is_inf a \<and> is_inf b) \<or> (is_zero a \<and> is_zero b) then NaN
      else if is_inf a \<or> is_zero b then dinf (signbit a \<noteq> signbit b)
      else if is_zero a \<or> is_inf b then dzero (signbit a \<noteq> signbit b)
      else dround (rval a / rval b))"

text \<open>\<open>std::min(a, b)\<close> is \<open>(b < a) ? b : a\<close>.\<close>

definition dmin :: "dbl \<Rightarrow> dbl \<Rightarrow> dbl" where
  "dmin a b = (if dlt b a then b else a)"

text \<open>\<open>ceil\<close>: a value in \<open>(-1, 0)\<close> rounds up to the negative zero.\<close>

fun dceil :: "dbl \<Rightarrow> dbl" where
  "dceil (Fin r) = (if r < 0 \<and> - 1 < r then NZero else Fin (of_int \<lceil>r\<rceil>))"
| "dceil d = d"

text \<open>Conversion of an \<open>int\<close> (exact: every 32-bit integer is a double).\<close>

definition of_int_dbl :: "int \<Rightarrow> dbl" where
  "of_int_dbl i = Fin (of_int i)"

subsection \<open>Timestamps\<close>

text \<open>
  Modelled from the spec: the declaration of \<open>beam::Timestamp\<close> is not in this file.
  The specification calls it a timestamp counted in seconds; the Beam core declares it
  as \<open>uint64_t\<close>, the type of what \<open>getTimestamp()\<close> returns. Subtraction wraps
  around and comparison is unsigned.
\<close>

type_synonym Timestamp = "64 word"

definition kMaxEstimate :: Timestamp where
  "kMaxEstimate = 2 * 60 * 60"

definition kSecondsInMinute :: dbl where
  "kSecondsInMinute = Fin 60"

text \<open>Conversion of a timestamp to double (rounded from \<open>2^53\<close> on).\<close>

definition of_ts_dbl :: "Timestamp \<Rightarrow> dbl" where
  "of_ts_dbl t = dround (real (unat t))"

subsection \<open>The outside world\<close>

text \<open>
  Modelled from the spec: the declaration of \<open>beam::wallet::ErrorType\<close> is not in this
  file. The specification calls it a closed enumeration of error kinds. The handler
  names four of its enumerators; \<open>OtherError n\<close> stands for every other enumerator.
\<close>

datatype ErrorType =
    NodeProtocolIncompatible
  | ConnectionAddrInUse
  | ConnectionRefused
  | HostResolvedError
  | OtherError nat

text \<open>
  What a handler reads from its collaborators while it runs: the settings
  (\<open>AppModel::getInstance().getSettings().getRunLocalNode()\<close>), the clock
  (\<open>getTimestamp()\<close>), the translation table (\<open>qtTrId\<close>), \<open>QString::asprintf\<close> at the
  four argument lists the file uses, the wallet model's \<open>GetErrorString\<close>, and whether
  the build defines \<open>NDEBUG\<close> (then \<open>assert\<close> expands to nothing).
\<close>

record env =
  getRunLocalNode :: bool
  getTimestamp :: Timestamp
  qtTrId :: "string \<Rightarrow> string"
  asprintf_d_d :: "string \<Rightarrow> int \<Rightarrow> int \<Rightarrow> string"
  asprintf_lf :: "string \<Rightarrow> dbl \<Rightarrow> string"
  asprintf_lf_s :: "string \<Rightarrow> dbl \<Rightarrow> string \<Rightarrow> string"
  asprintf_s :: "string \<Rightarrow> string \<Rightarrow> string"
  GetErrorString :: "ErrorType \<Rightarrow> string"
  NDEBUG :: bool

subsection \<open>The view model\<close>

text \<open>The Qt signals of the class; \<open>walletError\<close> carries a title and a description.\<close>

datatype signal =
    SyncCompleted
  | ProgressChanged
  | ProgressMessageChanged
  | IsCreatingChanged
  | WalletError string string
  | WalletReseted

text \<open>
  The data members. The counters are C++ \<open>int\<close>s; they are only compared and converted
  to double, never added to, so they are modelled as \<open>int\<close>. \<open>emitted\<close> is the log of
  the signals emitted so far, oldest first.
\<close>

record LoadingViewModel =
  m_progress :: dbl
  m_nodeTotal :: int
  m_nodeDone :: int
  m_total :: int
  m_done :: int
  m_hasLocalNode :: bool
  m_isCreating :: bool
  m_progressMessage :: string
  m_updateTimestamp :: Timestamp
  m_lastUpdateTimestamp :: Timestamp
  m_lastProgress :: dbl
  m_lastEstimateSeconds :: dbl
  emitted :: "signal list"

definition emit :: "signal \<Rightarrow> LoadingViewModel \<Rightarrow> LoadingViewModel" where
  "emit s vm = vm\<lparr>emitted := emitted vm @ [s]\<rparr>"

text \<open>The signals emitted between an earlier state and a later one.\<close>

definition new_signals :: "LoadingViewModel \<Rightarrow> LoadingViewModel \<Rightarrow> signal list" where
  "new_signals vm vm' = drop (length (emitted vm)) (emitted vm')"

text \<open>
  The constructor initialises \<open>m_progress\<close>, the four counters, \<open>m_hasLocalNode\<close> and
  \<open>m_isCreating\<close>; \<open>m_progressMessage\<close> is a default-constructed (empty) \<open>QString\<close>.
  It does not mention the two timestamps, \<open>m_lastProgress\<close> and
  \<open>m_lastEstimateSeconds\<close>: their first values are arguments here.
\<close>

definition LoadingViewModel_ctor ::
  "env \<Rightarrow> Timestamp \<Rightarrow> Timestamp \<Rightarrow> dbl \<Rightarrow> dbl \<Rightarrow> LoadingViewModel" where
  "LoadingViewModel_ctor e ut lut lp les =
     \<lparr> m_progress = Fin 0, m_nodeTotal = 0, m_nodeDone = 0, m_total = 0, m_done = 0,
       m_hasLocalNode = getRunLocalNode e, m_isCreating = False, m_progressMessage = [],
       m_updateTimestamp = ut, m_lastUpdateTimestamp = lut,
       m_lastProgress = lp, m_lastEstimateSeconds = les, emitted = [] \<rparr>"

definition setProgress :: "dbl \<Rightarrow> LoadingViewModel \<Rightarrow> LoadingViewModel" where
  "setProgress v vm =
     (if dgt v (m_progress vm)
      then emit ProgressChanged (vm\<lparr>m_lastProgress := m_progress vm, m_progress := v\<rparr>)
      else vm)"

definition setProgressMessage :: "string \<Rightarrow> LoadingViewModel \<Rightarrow> LoadingViewModel" where
  "setProgressMessage v vm =
     (if m_progressMessage vm \<noteq> v
      then emit ProgressMessageChanged (vm\<lparr>m_progressMessage := v\<rparr>)
      else vm)"

definition setIsCreating :: "bool \<Rightarrow> LoadingViewModel \<Rightarrow> LoadingViewModel" where
  "setIsCreating v vm =
     (if m_isCreating vm \<noteq> v
      then emit IsCreatingChanged (vm\<lparr>m_isCreating := v\<rparr>)
      else vm)"

definition getSecondsFromLastUpdate ::
  "env \<Rightarrow> LoadingViewModel \<Rightarrow> Timestamp \<times> LoadingViewModel" where
  "getSecondsFromLastUpdate e vm =
     (let vm1 = vm\<lparr>m_updateTimestamp := getTimestamp e\<rparr>;
          timeDiff = m_updateTimestamp vm1 - m_lastUpdateTimestamp vm1;
          vm2 = vm1\<lparr>m_lastUpdateTimestamp := m_updateTimestamp vm1\<rparr>
      in (if timeDiff > kMaxEstimate then kMaxEstimate else timeDiff, vm2))"

text \<open>
  The value stored in \<open>m_lastEstimateSeconds\<close> by \<open>getEstimateStr\<close> (lines 134 to 140):
  the projection, halved towards the previous one when it more than doubles.
\<close>

definition estimateSeconds :: "Timestamp \<Rightarrow> dbl \<Rightarrow> LoadingViewModel \<Rightarrow> dbl" where
  "estimateSeconds secondsFromLastUpdate progress vm =
     (let est = ddiv (of_ts_dbl secondsFromLastUpdate) (dsub progress (m_lastProgress vm))
      in if dgt (ddiv est (m_lastEstimateSeconds vm)) (Fin 2)
         then ddiv (dadd est (m_lastEstimateSeconds vm)) (Fin 2)
         else est)"

definition getEstimateStr ::
  "env \<Rightarrow> Timestamp \<Rightarrow> dbl \<Rightarrow> LoadingViewModel \<Rightarrow> string \<times> LoadingViewModel" where
  "getEstimateStr e secondsFromLastUpdate progress vm =
     (let est = estimateSeconds secondsFromLastUpdate progress vm;
          vm1 = vm\<lparr>m_lastEstimateSeconds := est\<rparr>;
          (val, units) =
            (if dgt est kSecondsInMinute
             then (dceil (ddiv est kSecondsInMinute), qtTrId e ''loading-view-estimate-minutes'')
             else (if dgt est (Fin 0) then dceil est else Fin 1,
                   qtTrId e ''loading-view-estimate-seconds''));
          estimateSubStr = asprintf_lf_s e ''%.0lf %s'' val units
      in ('' '' @ asprintf_s e (qtTrId e ''loading-view-estimate-time'') estimateSubStr, vm1))"

text \<open>
  Lines 78 to 107 of \<open>updateProgress\<close>: the choice between the two phases. It returns
  the locals \<open>progress\<close> and \<open>progressMessage\<close>, and emits \<open>syncCompleted\<close> in the
  scanning phase once \<open>m_done < m_total\<close> is false.
\<close>

definition updateProgress_phase ::
  "env \<Rightarrow> LoadingViewModel \<Rightarrow> dbl \<times> string \<times> LoadingViewModel" where
  "updateProgress_phase e vm =
     (let bLocalNode = getRunLocalNode e
      in if bLocalNode \<and> (m_nodeTotal vm = 0 \<or> m_nodeDone vm < m_nodeTotal vm)
         then (if m_nodeTotal vm > 0
               then dmin (Fin 1) (ddiv (of_int_dbl (m_nodeDone vm)) (of_int_dbl (m_nodeTotal vm)))
               else Fin 0,
               qtTrId e ''loading-view-download-blocks'',
               vm)
         else (if m_total vm > 0
               then dmin (Fin 1) (ddiv (of_int_dbl (m_done vm)) (of_int_dbl (m_total vm)))
               else Fin 0,
               if m_done vm < m_total vm
               then asprintf_d_d e (qtTrId e ''loading-view-scaning-utxo'') (m_done vm) (m_total vm)
               else [],
               if m_done vm < m_total vm then vm else emit SyncCompleted vm))"

definition updateProgress :: "env \<Rightarrow> LoadingViewModel \<Rightarrow> LoadingViewModel" where
  "updateProgress e vm =
     (let (progress, progressMessage, vm1) = updateProgress_phase e vm;
          (s, vm2) = getSecondsFromLastUpdate e vm1;
          (progressMessage', vm3) =
            (if dgt progress (Fin 0)
             then (let (estimateStr, vm') = getEstimateStr e s progress vm2
                   in (progressMessage @ asprintf_lf e '' %.2lf%%'' (dmul progress (Fin 100))
                         @ estimateStr, vm'))
             else (progressMessage, vm2))
      in setProgress progress (setProgressMessage progressMessage' vm3))"

definition onSyncProgressUpdated :: "env \<Rightarrow> int \<Rightarrow> int \<Rightarrow> LoadingViewModel \<Rightarrow> LoadingViewModel" where
  "onSyncProgressUpdated e done' total' vm =
     updateProgress e (vm\<lparr>m_done := done', m_total := total'\<rparr>)"

definition onNodeSyncProgressUpdated :: "env \<Rightarrow> int \<Rightarrow> int \<Rightarrow> LoadingViewModel \<Rightarrow> LoadingViewModel" where
  "onNodeSyncProgressUpdated e done' total' vm =
     updateProgress e (vm\<lparr>m_nodeDone := done', m_nodeTotal := total'\<rparr>)"

definition onNodeConnectionChanged :: "bool \<Rightarrow> LoadingViewModel \<Rightarrow> LoadingViewModel" where
  "onNodeConnectionChanged isNodeConnected vm = vm"

definition onWalletReseted :: "LoadingViewModel \<Rightarrow> LoadingViewModel" where
  "onWalletReseted vm = emit WalletReseted vm"

text \<open>
  \<open>onGetWalletError\<close> either returns with the new state or stops the process in
  \<open>assert(false && "Unsupported error code!")\<close>.
\<close>

datatype abort = AssertionFailed

text \<open>Lines 238 to 251: the part of the handler after the creation-mode block.\<close>

definition onGetWalletError_rest :: "env \<Rightarrow> ErrorType \<Rightarrow> LoadingViewModel \<Rightarrow> LoadingViewModel" where
  "onGetWalletError_rest e error vm =
     (case error of
        ConnectionAddrInUse \<Rightarrow>
          emit (WalletError (qtTrId e ''loading-view-connection-error'') (GetErrorString e error)) vm
      | _ \<Rightarrow> emit SyncCompleted (updateProgress e vm))"

definition onGetWalletError :: "env \<Rightarrow> ErrorType \<Rightarrow> LoadingViewModel \<Rightarrow> abort + LoadingViewModel" where
  "onGetWalletError e error vm =
     (if m_isCreating vm
      then (case error of
              NodeProtocolIncompatible \<Rightarrow>
                Inr (emit (WalletError (qtTrId e ''loading-view-protocol-error'')
                                       (GetErrorString e error)) vm)
            | ConnectionAddrInUse \<Rightarrow>
                Inr (emit (WalletError (qtTrId e ''loading-view-connection-error'')
                                       (GetErrorString e error)) vm)
            | ConnectionRefused \<Rightarrow>
                Inr (emit (WalletError (qtTrId e ''loading-view-connection-error'')
                                       (GetErrorString e error)) vm)
            | HostResolvedError \<Rightarrow>
                Inr (emit (WalletError (qtTrId e ''loading-view-connection-error'')
                                       (GetErrorString e error)) vm)
            | OtherError n \<Rightarrow>
                (if NDEBUG e then Inr (onGetWalletError_rest e error vm)
                 else Inl AssertionFailed))
      else Inr (onGetWalletError_rest e error vm))"

subsection \<open>Runs of the view model\<close>

text \<open>
  The calls that reach the object: its slots, and the setters of its properties. Each
  call comes with the state of the outside world at that moment.
\<close>

datatype event =
    SyncProgressUpdated int int
  | NodeSyncProgressUpdated int int
  | NodeConnectionChanged bool
  | GetWalletError ErrorType
  | WalletResetedEvent
  | SetIsCreating bool
  | SetProgressMessage string
  | SetProgress dbl

fun step :: "env \<Rightarrow> event \<Rightarrow> LoadingViewModel \<Rightarrow> abort + LoadingViewModel" where
  "step e (SyncProgressUpdated d t) vm = Inr (onSyncProgressUpdated e d t vm)"
| "step e (NodeSyncProgressUpdated d t) vm = Inr (onNodeSyncProgressUpdated e d t vm)"
| "step e (NodeConnectionChanged b) vm = Inr (onNodeConnectionChanged b vm)"
| "step e (GetWalletError error) vm = onGetWalletError e error vm"
| "step e WalletResetedEvent vm = Inr (onWalletReseted vm)"
| "step e (SetIsCreating b) vm = Inr (setIsCreating b vm)"
| "step e (SetProgressMessage x) vm = Inr (setProgressMessage x vm)"
| "step e (SetProgress v) vm = Inr (setProgress v vm)"

fun run :: "(env \<times> event) list \<Rightarrow> LoadingViewModel \<Rightarrow> abort + LoadingViewModel" where
  "run [] vm = Inr vm"
| "run ((e, ev) # evs) vm = (case step e ev vm of Inl a \<Rightarrow> Inl a | Inr vm' \<Rightarrow> run evs vm')"

text \<open>A direct write to the \<open>progress\<close> property that does not exceed 1 (a NaN is ignored
  by the setter).\<close>

fun write_at_most_one :: "env \<times> event \<Rightarrow> bool" where
  "write_at_most_one (e, SetProgress v) = (\<not> dgt v (Fin 1))"
| "write_at_most_one (e, ev) = True"

text \<open>The fractions stored after each call of a sequence of \<open>setProgress\<close> calls.\<close>

fun setProgress_trace :: "LoadingViewModel \<Rightarrow> dbl list \<Rightarrow> dbl list" where
  "setProgress_trace vm [] = []"
| "setProgress_trace vm (v # vs) =
     m_progress (setProgress v vm) # setProgress_trace (setProgress v vm) vs"

text \<open>The stored fraction lies between 0 and 1.\<close>

definition in_unit_interval :: "dbl \<Rightarrow> bool" where
  "in_unit_interval d = (dle (Fin 0) d \<and> dle d (Fin 1))"

text \<open>The signals in the log of a handler's result, when the handler returns.\<close>

definition signals_after :: "abort + LoadingViewModel \<Rightarrow> signal list option" where
  "signals_after r = (case r of Inl a \<Rightarrow> None | Inr vm \<Rightarrow> Some (emitted vm))"

text \<open>The stored fraction of the state a run ends in, when it does not abort.\<close>

definition progress_after :: "abort + LoadingViewModel \<Rightarrow> dbl option" where
  "progress_after r = (case r of Inl a \<Rightarrow> None | Inr vm \<Rightarrow> Some (m_progress vm))"

subsection \<open>The specification's formulas\<close>

text \<open>
  Section 4.2, step 1 of the specification:
  \<open>elapsed = clamp(now - lastUpdateTimestamp, 0, MAX_ESTIMATE_SECONDS=7200)\<close>, on
  mathematical integers.
\<close>

definition clamp :: "int \<Rightarrow> int \<Rightarrow> int \<Rightarrow> int" where
  "clamp x lo hi = max lo (min hi x)"

definition spec_elapsed :: "int \<Rightarrow> int \<Rightarrow> int" where
  "spec_elapsed now lastUpdateTimestamp = clamp (now - lastUpdateTimestamp) 0 7200"

text \<open>
  Section 4.1: \<open>rawFraction = totalUnits > 0 ? min(1, doneUnits / totalUnits) : 0\<close>.
\<close>

definition spec_rawFraction :: "int \<Rightarrow> int \<Rightarrow> real" where
  "spec_rawFraction doneUnits totalUnits =
     (if totalUnits > 0 then min 1 (real_of_int doneUnits / real_of_int totalUnits) else 0)"

subsection \<open>Example inputs\<close>

text \<open>
  A world without a translation table, whose \<open>asprintf\<close> drops the numbers and keeps the
  strings, built with assertions enabled; and a freshly constructed view model whose
  members the constructor leaves out are zero.
\<close>

definition ex_env :: "bool \<Rightarrow> Timestamp \<Rightarrow> env" where
  "ex_env l now =
     \<lparr> getRunLocalNode = l, getTimestamp = now, qtTrId = (\<lambda>k. k),
       asprintf_d_d = (\<lambda>f a b. f), asprintf_lf = (\<lambda>f x. f),
       asprintf_lf_s = (\<lambda>f x s. f @ s), asprintf_s = (\<lambda>f s. f @ s),
       GetErrorString = (\<lambda>error. ''description''), NDEBUG = False \<rparr>"

definition ex_vm :: LoadingViewModel where
  "ex_vm = LoadingViewModel_ctor (ex_env False 0) 0 0 (Fin 0) (Fin 0)"

text \<open>
  The fresh view model after two scan updates, 1 of 2 at time 10 and 3 of 4 at time 20:
  the stored fraction is \<open>3/4\<close> and \<open>m_lastProgress\<close> is \<open>1/2\<close>.
\<close>

definition ex_vm_advanced :: LoadingViewModel where
  "ex_vm_advanced =
     onSyncProgressUpdated (ex_env False 20) 3 4
       (onSyncProgressUpdated (ex_env False 10) 1 2 ex_vm)"

text \<open>
  A run with a local node: the download completes, the scan reports a negative count
  and then more than its total, the property is written directly, and an error arrives.
\<close>

definition ex_events :: "(env \<times> event) list" where
  "ex_events =
     [(ex_env True 10, NodeSyncProgressUpdated 1 2),
      (ex_env True 20, NodeSyncProgressUpdated 2 2),
      (ex_env True 30, SyncProgressUpdated (- 3) 4),
      (ex_env True 40, SyncProgressUpdated 9 4),
      (ex_env True 50, SetProgress (Fin (1/2))),
      (ex_env True 60, GetWalletError ConnectionRefused)]"

section \<open>Properties\<close>

subsection \<open>The example state\<close>

lemma ex_vm_simps:
  "m_progress ex_vm = Fin 0" "m_nodeTotal ex_vm = 0" "m_nodeDone ex_vm = 0"
  "m_total ex_vm = 0" "m_done ex_vm = 0" "m_isCreating ex_vm = False"
  "m_progressMessage ex_vm = []" "m_updateTimestamp ex_vm = 0"
  "m_lastUpdateTimestamp ex_vm = 0" "m_lastProgress ex_vm = Fin 0"
  "m_lastEstimateSeconds ex_vm = Fin 0" "emitted ex_vm = []"
  by (simp_all add: ex_vm_def LoadingViewModel_ctor_def)

lemmas dround_defs =
  dround_def dround_at_def dfinish_def bexp_def bexp_up.simps bexp_down.simps pow2_def rne_def

lemmas dbl_defs =
  of_int_dbl_def of_ts_dbl_def ddiv_def dmin_def dlt_def dgt_def dle_def dadd_def dsub_def
  dmul_def dzero_def dinf_def dround_defs

subsection \<open>Rounding\<close>

lemma pow2_powi: "pow2 e = 2 powi e"
  by (simp add: pow2_def power_int_def inverse_eq_divide power_one_over)

lemma pow2_pos: "0 < pow2 e"
  by (simp add: pow2_powi)

lemma pow2_add: "pow2 (a + b) = pow2 a * pow2 b"
  by (simp add: pow2_powi power_int_add)

lemma pow2_mono: "a \<le> b \<Longrightarrow> pow2 a \<le> pow2 b"
  by (simp add: pow2_powi power_int_increasing)

lemma pow2_0: "pow2 0 = 1"
  by (simp add: pow2_def)

lemma bexp_up_lower: "pow2 e \<le> a \<Longrightarrow> pow2 (bexp_up a e) \<le> a"
proof (induction a e rule: bexp_up.induct)
  case (1 a e)
  show ?case
  proof (cases "e < 1023 \<and> pow2 (e + 1) \<le> a")
    case True
    then show ?thesis using "1.IH" by (subst bexp_up.simps) simp
  next
    case False
    then show ?thesis using "1.prems" by (subst bexp_up.simps) auto
  qed
qed

lemma bexp_up_ge: "e \<le> bexp_up a e"
proof (induction a e rule: bexp_up.induct)
  case (1 a e)
  show ?case
  proof (cases "e < 1023 \<and> pow2 (e + 1) \<le> a")
    case True
    then show ?thesis using "1.IH" by (subst bexp_up.simps) simp
  next
    case False
    then show ?thesis by (subst bexp_up.simps) auto
  qed
qed

lemma bexp_down_upper: "a < pow2 (e + 1) \<Longrightarrow> a < pow2 (bexp_down a e + 1)"
proof (induction a e rule: bexp_down.induct)
  case (1 a e)
  show ?case
  proof (cases "- 1022 < e \<and> a < pow2 e")
    case True
    then show ?thesis using "1.IH" by (subst bexp_down.simps) simp
  next
    case False
    then show ?thesis using "1.prems" by (subst bexp_down.simps) auto
  qed
qed

lemma bexp_down_le: "bexp_down a e \<le> e"
proof (induction a e rule: bexp_down.induct)
  case (1 a e)
  show ?case
  proof (cases "- 1022 < e \<and> a < pow2 e")
    case True
    then show ?thesis using "1.IH" by (subst bexp_down.simps) simp
  next
    case False
    then show ?thesis by (subst bexp_down.simps) auto
  qed
qed

lemma rne_lower: "of_int n \<le> m \<Longrightarrow> n \<le> rne m"
proof -
  assume "of_int n \<le> m"
  then have "n \<le> \<lfloor>m\<rfloor>" by (simp add: le_floor_iff)
  then show ?thesis by (simp add: rne_def Let_def)
qed

lemma rne_upper: "m \<le> of_int n \<Longrightarrow> rne m \<le> n"
proof (cases "m = of_int n")
  case True
  then show ?thesis by (simp add: rne_def Let_def)
next
  case False
  assume "m \<le> of_int n"
  with False have "m < of_int n" by simp
  then have "\<lfloor>m\<rfloor> < n" by (simp add: floor_less_iff)
  then show ?thesis by (simp add: rne_def Let_def)
qed

lemma rne_nonneg: "0 \<le> m \<Longrightarrow> 0 \<le> rne m"
  using rne_lower [of 0 m] by simp


lemma dfinish_not_nan: "\<not> is_nan (dfinish neg r)"
  by (simp add: dfinish_def dinf_def dzero_def)

lemma dround_not_nan: "\<not> is_nan (dround x)"
  by (simp add: dround_def dround_at_def dfinish_not_nan)

lemma dfinish_ge_1: "1 \<le> r \<Longrightarrow> \<not> dlt (dfinish False r) (Fin 1)"
  by (auto simp: dfinish_def dinf_def dlt_def)

lemma dfinish_le_1: "0 \<le> r \<Longrightarrow> (\<not> neg \<Longrightarrow> r \<le> 1) \<Longrightarrow> \<not> dgt (dfinish neg r) (Fin 1)"
  by (auto simp: dfinish_def dinf_def dzero_def dgt_def dlt_def pow2_def)

lemma dround_ge_1:
  assumes "1 \<le> x"
  shows "\<not> dlt (dround x) (Fin 1)"
proof -
  let ?e = "bexp_up x 0"
  let ?q = "?e - 52"
  let ?n = "rne (x / pow2 ?q)"
  have lo: "pow2 ?e \<le> x" using bexp_up_lower [of 0 x] assms by (simp add: pow2_0)
  have e0: "pow2 0 \<le> pow2 ?e"
    by (rule pow2_mono) (rule bexp_up_ge)
  have split: "pow2 ?e = pow2 52 * pow2 ?q"
    using pow2_add [of 52 ?q] by simp
  have "of_int (2 ^ 52) \<le> x / pow2 ?q"
    using lo split pow2_pos [of ?q] by (simp add: pos_le_divide_eq pow2_def)
  then have n: "2 ^ 52 \<le> ?n" by (rule rne_lower)
  have "pow2 ?e \<le> of_int ?n * pow2 ?q"
  proof -
    have "pow2 52 * pow2 ?q \<le> of_int ?n * pow2 ?q"
    proof (rule mult_right_mono)
      have "(2::real) ^ 52 \<le> of_int ?n" using n by (metis of_int_le_iff of_int_numeral of_int_power)
      then show "pow2 52 \<le> of_int ?n" by (simp add: pow2_def)
      show "0 \<le> pow2 ?q" using pow2_pos [of ?q] by simp
    qed
    then show ?thesis using split by simp
  qed
  then have r: "1 \<le> of_int ?n * pow2 ?q" using e0 by (simp add: pow2_0)
  have "dround x = dfinish False (of_int ?n * pow2 ?q)"
    using assms by (simp add: dround_def dround_at_def bexp_def)
  then show ?thesis
    using dfinish_ge_1 [OF r] by simp
qed

lemma dround_lt_1:
  assumes "x < 1"
  shows "\<not> dgt (dround x) (Fin 1)"
proof (cases "x \<le> 0")
  case True
  show ?thesis
  proof (cases "x = 0")
    case True
    then show ?thesis by (simp add: dround_def dgt_def dlt_def)
  next
    case False
    with True have neg: "x < 0" by simp
    let ?q = "bexp \<bar>x\<bar> - 52"
    have "0 \<le> \<bar>x\<bar> / pow2 ?q" using pow2_pos [of ?q] by simp
    then have "0 \<le> rne (\<bar>x\<bar> / pow2 ?q)" by (rule rne_nonneg)
    then have "0 \<le> of_int (rne (\<bar>x\<bar> / pow2 ?q)) * pow2 ?q"
      using pow2_pos [of ?q] by simp
    then have "\<not> dgt (dfinish True (of_int (rne (\<bar>x\<bar> / pow2 ?q)) * pow2 ?q)) (Fin 1)"
      by (rule dfinish_le_1) simp
    then show ?thesis using neg by (simp add: dround_def dround_at_def)
  qed
next
  case False
  then have pos: "0 < x" by simp
  let ?e = "bexp_down x 0"
  let ?q = "?e - 52"
  let ?n = "rne (x / pow2 ?q)"
  have st: "?e = bexp_down x (- 1)"
    using assms by (subst bexp_down.simps) (simp add: pow2_0)
  have up: "x < pow2 (?e + 1)"
    unfolding st by (rule bexp_down_upper) (use assms in \<open>simp add: pow2_0\<close>)
  have e1: "pow2 (?e + 1) \<le> pow2 0"
    unfolding st by (rule pow2_mono) (use bexp_down_le [of x "- 1"] in simp)
  have split: "pow2 (?e + 1) = pow2 53 * pow2 ?q"
    using pow2_add [of 53 ?q] by (simp add: add.commute)
  have "x / pow2 ?q \<le> of_int (2 ^ 53)"
    using up split pow2_pos [of ?q] by (simp add: pos_divide_le_eq pow2_def)
  then have n: "?n \<le> 2 ^ 53" by (rule rne_upper)
  have n0: "0 \<le> ?n" using pos pow2_pos [of ?q] by (intro rne_nonneg) simp
  have "of_int ?n * pow2 ?q \<le> pow2 53 * pow2 ?q"
  proof (rule mult_right_mono)
    have "of_int ?n \<le> (2::real) ^ 53" using n by (metis of_int_le_iff of_int_numeral of_int_power)
    then show "of_int ?n \<le> pow2 53" by (simp add: pow2_def)
    show "0 \<le> pow2 ?q" using pow2_pos [of ?q] by simp
  qed
  then have r1: "of_int ?n * pow2 ?q \<le> 1" using split e1 by (simp add: pow2_0)
  have r0: "0 \<le> of_int ?n * pow2 ?q" using n0 pow2_pos [of ?q] by simp
  have "\<not> dgt (dfinish False (of_int ?n * pow2 ?q)) (Fin 1)"
    using r0 r1 by (rule dfinish_le_1)
  then show ?thesis
    using pos assms by (simp add: dround_def dround_at_def bexp_def)
qed

lemma dround_1: "dround 1 = Fin 1"
  by (simp add: dround_def dround_at_def dfinish_def bexp_def bexp_up.simps pow2_def rne_def)

lemma dle_antisym_1: "\<not> is_nan a \<Longrightarrow> \<not> dlt a (Fin 1) \<Longrightarrow> \<not> dgt a (Fin 1) \<Longrightarrow> a = Fin 1"
  by (cases a) (simp_all add: dlt_def dgt_def)

lemma dmin_dround: "dmin (Fin 1) (dround x) = dround (min 1 x)"
proof (cases "1 \<le> x")
  case True
  then show ?thesis using dround_ge_1 [OF True] by (simp add: dmin_def min_def dround_1)
next
  case False
  then have lt: "x < 1" by simp
  show ?thesis
  proof (cases "dlt (dround x) (Fin 1)")
    case True
    then show ?thesis using lt by (simp add: dmin_def min_def)
  next
    case False
    then have "dround x = Fin 1"
      using dle_antisym_1 [OF dround_not_nan _ dround_lt_1 [OF lt]] by simp
    then show ?thesis using False lt by (simp add: dmin_def min_def)
  qed
qed

subsection \<open>Order on doubles\<close>

lemma dle_refl: "\<not> is_nan a \<Longrightarrow> dle a a"
  by (cases a) (simp_all add: dle_def)

lemma dle_trans: "dle a b \<Longrightarrow> dle b c \<Longrightarrow> dle a c"
  by (cases a; cases b; cases c) (simp_all add: dle_def)

lemma dlt_imp_dle: "dlt a b \<Longrightarrow> dle a b"
  by (cases a; cases b) (simp_all add: dle_def dlt_def)

lemma dlt_not_nan: "dlt a b \<Longrightarrow> \<not> is_nan a \<and> \<not> is_nan b"
  by (cases a; cases b) (simp_all add: dlt_def)

lemma setProgress_progress_dle:
  "\<not> is_nan (m_progress vm) \<Longrightarrow> dle (m_progress vm) (m_progress (setProgress v vm))"
  by (simp add: setProgress_def emit_def dgt_def dlt_imp_dle dle_refl)

lemma setProgress_not_nan:
  "\<not> is_nan (m_progress vm) \<Longrightarrow> \<not> is_nan (m_progress (setProgress v vm))"
  by (simp add: setProgress_def emit_def dgt_def dlt_not_nan)

lemma setProgress_trace_lower:
  "\<not> is_nan (m_progress vm) \<Longrightarrow> x \<in> set (setProgress_trace vm vs) \<Longrightarrow> dle (m_progress vm) x"
proof (induction vs arbitrary: vm)
  case Nil
  then show ?case by simp
next
  case (Cons v vs)
  have step: "dle (m_progress vm) (m_progress (setProgress v vm))"
    using Cons.prems(1) by (rule setProgress_progress_dle)
  have nn: "\<not> is_nan (m_progress (setProgress v vm))"
    using Cons.prems(1) by (rule setProgress_not_nan)
  from Cons.prems(2) consider "x = m_progress (setProgress v vm)"
    | "x \<in> set (setProgress_trace (setProgress v vm) vs)" by auto
  then show ?case
  proof cases
    case 1
    then show ?thesis using step by simp
  next
    case 2
    then have "dle (m_progress (setProgress v vm)) x" using Cons.IH nn by blast
    then show ?thesis using step dle_trans by blast
  qed
qed

lemma setProgress_trace_sorted:
  "\<not> is_nan (m_progress vm) \<Longrightarrow> sorted_wrt dle (m_progress vm # setProgress_trace vm vs)"
proof (induction vs arbitrary: vm)
  case Nil
  then show ?case by simp
next
  case (Cons v vs)
  have nn: "\<not> is_nan (m_progress (setProgress v vm))"
    using Cons.prems by (rule setProgress_not_nan)
  have "sorted_wrt dle (m_progress (setProgress v vm) # setProgress_trace (setProgress v vm) vs)"
    using Cons.IH nn by blast
  moreover have "\<forall>x \<in> set (setProgress_trace vm (v # vs)). dle (m_progress vm) x"
    using Cons.prems setProgress_trace_lower by blast
  ultimately show ?case by simp
qed

text \<open>
  Claim C4. A call of \<open>setProgress\<close> whose value is not greater than the stored fraction
  changes nothing and emits nothing; a greater value is stored, the old fraction moves to
  \<open>m_lastProgress\<close>, and exactly one \<open>progressChanged\<close> is emitted. Over any sequence of
  calls, with any values, the fractions observed after each call never decrease.
\<close>

theorem setProgress_ratchet:
  "(\<not> dgt v (m_progress vm) \<longrightarrow> setProgress v vm = vm) \<and>
   (dgt v (m_progress vm) \<longrightarrow>
      setProgress v vm =
        vm\<lparr>m_progress := v, m_lastProgress := m_progress vm,
           emitted := emitted vm @ [ProgressChanged]\<rparr>) \<and>
   (\<not> is_nan (m_progress vm) \<longrightarrow>
      sorted_wrt dle (m_progress vm # setProgress_trace vm vs))"
  using setProgress_trace_sorted [of vm vs]
  by (simp add: setProgress_def emit_def)

text \<open>
  The calls \<open>1/2, 1/4, NaN, 3/4\<close> on a fresh view model leave \<open>1/2, 1/2, 1/2, 3/4\<close>.
\<close>

theorem setProgress_ratchet_witness:
  "setProgress (Fin (1/4)) (setProgress (Fin (1/2)) ex_vm) = setProgress (Fin (1/2)) ex_vm \<and>
   setProgress (Fin (1/2)) ex_vm =
     ex_vm\<lparr>m_progress := Fin (1/2), m_lastProgress := Fin 0, emitted := [ProgressChanged]\<rparr> \<and>
   sorted_wrt dle (Fin 0 # setProgress_trace ex_vm [Fin (1/2), Fin (1/4), NaN, Fin (3/4)]) \<and>
   setProgress_trace ex_vm [Fin (1/2), Fin (1/4), NaN, Fin (3/4)] =
     [Fin (1/2), Fin (1/2), Fin (1/2), Fin (3/4)]"
  using setProgress_ratchet [of "Fin (1/4)" "setProgress (Fin (1/2)) ex_vm" "[]"]
    setProgress_ratchet [of "Fin (1/2)" ex_vm "[Fin (1/2), Fin (1/4), NaN, Fin (3/4)]"]
  by (simp add: ex_vm_simps setProgress_def emit_def dgt_def dlt_def)

text \<open>
  Claim C8. \<open>setProgressMessage x\<close> on a view model whose message is already \<open>x\<close> is the
  identity; on any other it stores \<open>x\<close> and emits exactly one \<open>progressMessageChanged\<close>.
  A second call with the same \<open>x\<close> changes nothing, so two calls in a row emit one signal
  between them.
\<close>

theorem setProgressMessage_dedup:
  "(m_progressMessage vm = x \<longrightarrow> setProgressMessage x vm = vm) \<and>
   (m_progressMessage vm \<noteq> x \<longrightarrow>
      setProgressMessage x vm =
        vm\<lparr>m_progressMessage := x, emitted := emitted vm @ [ProgressMessageChanged]\<rparr>) \<and>
   setProgressMessage x (setProgressMessage x vm) = setProgressMessage x vm \<and>
   (m_progressMessage vm \<noteq> x \<longrightarrow>
      new_signals vm (setProgressMessage x (setProgressMessage x vm)) = [ProgressMessageChanged])"
  by (simp add: setProgressMessage_def emit_def new_signals_def)

text \<open>
  The message \<open>abc\<close>, set twice on a fresh view model and once on one that holds it.
\<close>

theorem setProgressMessage_dedup_witness:
  "setProgressMessage ''abc'' (ex_vm\<lparr>m_progressMessage := ''abc''\<rparr>) = ex_vm\<lparr>m_progressMessage := ''abc''\<rparr> \<and>
   setProgressMessage ''abc'' ex_vm = ex_vm\<lparr>m_progressMessage := ''abc'', emitted := [ProgressMessageChanged]\<rparr> \<and>
   new_signals ex_vm (setProgressMessage ''abc'' (setProgressMessage ''abc'' ex_vm)) = [ProgressMessageChanged]"
  using setProgressMessage_dedup [of ex_vm "''abc''"]
    setProgressMessage_dedup [of "ex_vm\<lparr>m_progressMessage := ''abc''\<rparr>" "''abc''"]
  by (simp add: ex_vm_simps setProgressMessage_def emit_def new_signals_def)


lemma setProgressMessage_frame:
  "m_progress (setProgressMessage x vm) = m_progress vm"
  "m_lastProgress (setProgressMessage x vm) = m_lastProgress vm"
  "m_lastEstimateSeconds (setProgressMessage x vm) = m_lastEstimateSeconds vm"
  "m_updateTimestamp (setProgressMessage x vm) = m_updateTimestamp vm"
  "m_lastUpdateTimestamp (setProgressMessage x vm) = m_lastUpdateTimestamp vm"
  "m_nodeTotal (setProgressMessage x vm) = m_nodeTotal vm"
  "m_nodeDone (setProgressMessage x vm) = m_nodeDone vm"
  "m_total (setProgressMessage x vm) = m_total vm"
  "m_done (setProgressMessage x vm) = m_done vm"
  "m_isCreating (setProgressMessage x vm) = m_isCreating vm"
  by (simp_all add: setProgressMessage_def emit_def)

lemma setProgress_frame:
  "m_lastEstimateSeconds (setProgress v vm) = m_lastEstimateSeconds vm"
  "m_updateTimestamp (setProgress v vm) = m_updateTimestamp vm"
  "m_lastUpdateTimestamp (setProgress v vm) = m_lastUpdateTimestamp vm"
  "m_progressMessage (setProgress v vm) = m_progressMessage vm"
  "m_nodeTotal (setProgress v vm) = m_nodeTotal vm"
  "m_nodeDone (setProgress v vm) = m_nodeDone vm"
  "m_total (setProgress v vm) = m_total vm"
  "m_done (setProgress v vm) = m_done vm"
  "m_isCreating (setProgress v vm) = m_isCreating vm"
  by (simp_all add: setProgress_def emit_def)

lemma getEstimateStr_frame:
  "m_progress (snd (getEstimateStr e s p vm)) = m_progress vm"
  "m_lastProgress (snd (getEstimateStr e s p vm)) = m_lastProgress vm"
  "m_updateTimestamp (snd (getEstimateStr e s p vm)) = m_updateTimestamp vm"
  "m_lastUpdateTimestamp (snd (getEstimateStr e s p vm)) = m_lastUpdateTimestamp vm"
  "emitted (snd (getEstimateStr e s p vm)) = emitted vm"
  "m_lastEstimateSeconds (snd (getEstimateStr e s p vm)) = estimateSeconds s p vm"
  "m_progressMessage (snd (getEstimateStr e s p vm)) = m_progressMessage vm"
  "m_nodeTotal (snd (getEstimateStr e s p vm)) = m_nodeTotal vm"
  "m_nodeDone (snd (getEstimateStr e s p vm)) = m_nodeDone vm"
  "m_total (snd (getEstimateStr e s p vm)) = m_total vm"
  "m_done (snd (getEstimateStr e s p vm)) = m_done vm"
  "m_isCreating (snd (getEstimateStr e s p vm)) = m_isCreating vm"
  by (simp_all add: getEstimateStr_def Let_def split_def)

lemma estimateSeconds_unfold:
  "estimateSeconds s p vm =
     (if dgt (ddiv (ddiv (of_ts_dbl s) (dsub p (m_lastProgress vm))) (m_lastEstimateSeconds vm))
           (Fin 2)
      then ddiv (dadd (ddiv (of_ts_dbl s) (dsub p (m_lastProgress vm)))
                  (m_lastEstimateSeconds vm)) (Fin 2)
      else ddiv (of_ts_dbl s) (dsub p (m_lastProgress vm)))"
  by (simp add: estimateSeconds_def Let_def)

lemma estimateSeconds_cong:
  "m_lastProgress vm' = m_lastProgress vm \<Longrightarrow>
   m_lastEstimateSeconds vm' = m_lastEstimateSeconds vm \<Longrightarrow>
     estimateSeconds s p vm' = estimateSeconds s p vm"
  by (simp add: estimateSeconds_unfold)

lemma getEstimateStr_fst:
  "fst (getEstimateStr e s p vm) =
     '' '' @ asprintf_s e (qtTrId e ''loading-view-estimate-time'')
       (asprintf_lf_s e ''%.0lf %s''
          (if dgt (estimateSeconds s p vm) kSecondsInMinute
           then dceil (ddiv (estimateSeconds s p vm) kSecondsInMinute)
           else if dgt (estimateSeconds s p vm) (Fin 0) then dceil (estimateSeconds s p vm)
                else Fin 1)
          (if dgt (estimateSeconds s p vm) kSecondsInMinute
           then qtTrId e ''loading-view-estimate-minutes''
           else qtTrId e ''loading-view-estimate-seconds''))"
  by (simp add: getEstimateStr_def Let_def split_def)

lemma getSecondsFromLastUpdate_frame:
  "m_progress (snd (getSecondsFromLastUpdate e vm)) = m_progress vm"
  "m_lastProgress (snd (getSecondsFromLastUpdate e vm)) = m_lastProgress vm"
  "m_lastEstimateSeconds (snd (getSecondsFromLastUpdate e vm)) = m_lastEstimateSeconds vm"
  "emitted (snd (getSecondsFromLastUpdate e vm)) = emitted vm"
  "m_updateTimestamp (snd (getSecondsFromLastUpdate e vm)) = getTimestamp e"
  "m_lastUpdateTimestamp (snd (getSecondsFromLastUpdate e vm)) = getTimestamp e"
  "m_progressMessage (snd (getSecondsFromLastUpdate e vm)) = m_progressMessage vm"
  "m_nodeTotal (snd (getSecondsFromLastUpdate e vm)) = m_nodeTotal vm"
  "m_nodeDone (snd (getSecondsFromLastUpdate e vm)) = m_nodeDone vm"
  "m_total (snd (getSecondsFromLastUpdate e vm)) = m_total vm"
  "m_done (snd (getSecondsFromLastUpdate e vm)) = m_done vm"
  "m_isCreating (snd (getSecondsFromLastUpdate e vm)) = m_isCreating vm"
  by (simp_all add: getSecondsFromLastUpdate_def Let_def)

lemma getSecondsFromLastUpdate_fst:
  "fst (getSecondsFromLastUpdate e vm) =
     (if getTimestamp e - m_lastUpdateTimestamp vm > kMaxEstimate then kMaxEstimate
      else getTimestamp e - m_lastUpdateTimestamp vm)"
  by (simp add: getSecondsFromLastUpdate_def Let_def)

lemma updateProgress_phase_frame:
  "m_progress (snd (snd (updateProgress_phase e vm))) = m_progress vm"
  "m_lastProgress (snd (snd (updateProgress_phase e vm))) = m_lastProgress vm"
  "m_lastEstimateSeconds (snd (snd (updateProgress_phase e vm))) = m_lastEstimateSeconds vm"
  "m_lastUpdateTimestamp (snd (snd (updateProgress_phase e vm))) = m_lastUpdateTimestamp vm"
  "m_progressMessage (snd (snd (updateProgress_phase e vm))) = m_progressMessage vm"
  "m_nodeTotal (snd (snd (updateProgress_phase e vm))) = m_nodeTotal vm"
  "m_nodeDone (snd (snd (updateProgress_phase e vm))) = m_nodeDone vm"
  "m_total (snd (snd (updateProgress_phase e vm))) = m_total vm"
  "m_done (snd (snd (updateProgress_phase e vm))) = m_done vm"
  "m_isCreating (snd (snd (updateProgress_phase e vm))) = m_isCreating vm"
  by (simp_all add: updateProgress_phase_def Let_def emit_def)

lemma updateProgress_unfold:
  "updateProgress e vm =
     (let progress = fst (updateProgress_phase e vm);
          progressMessage = fst (snd (updateProgress_phase e vm));
          vm1 = snd (snd (updateProgress_phase e vm));
          s = fst (getSecondsFromLastUpdate e vm1);
          vm2 = snd (getSecondsFromLastUpdate e vm1);
          progressMessage' =
            (if dgt progress (Fin 0)
             then progressMessage @ asprintf_lf e '' %.2lf%%'' (dmul progress (Fin 100))
                    @ fst (getEstimateStr e s progress vm2)
             else progressMessage);
          vm3 = (if dgt progress (Fin 0) then snd (getEstimateStr e s progress vm2) else vm2)
      in setProgress progress (setProgressMessage progressMessage' vm3))"
  by (simp add: updateProgress_def Let_def split_def)

lemma updateProgress_timestamp:
  "m_lastUpdateTimestamp (updateProgress e vm) = getTimestamp e"
  by (simp add: updateProgress_unfold Let_def setProgress_frame setProgressMessage_frame
      getEstimateStr_frame getSecondsFromLastUpdate_frame)

lemma updateProgress_counters:
  "m_nodeTotal (updateProgress e vm) = m_nodeTotal vm"
  "m_nodeDone (updateProgress e vm) = m_nodeDone vm"
  "m_total (updateProgress e vm) = m_total vm"
  "m_done (updateProgress e vm) = m_done vm"
  "m_isCreating (updateProgress e vm) = m_isCreating vm"
  by (simp_all add: updateProgress_unfold Let_def setProgress_frame setProgressMessage_frame
      getEstimateStr_frame getSecondsFromLastUpdate_frame updateProgress_phase_frame)

lemma word_7200: "unat (7200 :: 64 word) = 7200" "uint (7200 :: 64 word) = 7200"
  by simp_all

text \<open>
  Claim C6, as the code has it. The elapsed time is the 64-bit unsigned difference
  \<open>now - m_lastUpdateTimestamp\<close> (taken modulo \<open>2^64\<close>), capped at 7200; there is no
  lower clamp. When the stored timestamp is not later than \<open>now\<close> this is the
  specification's \<open>clamp(now - lastUpdateTimestamp, 0, 7200)\<close>. Every call, and so every
  \<open>updateProgress\<close>, overwrites \<open>m_lastUpdateTimestamp\<close> with \<open>now\<close>.
\<close>

theorem getSecondsFromLastUpdate_elapsed:
  "fst (getSecondsFromLastUpdate e vm) =
     (if getTimestamp e - m_lastUpdateTimestamp vm > 7200 then 7200
      else getTimestamp e - m_lastUpdateTimestamp vm) \<and>
   uint (fst (getSecondsFromLastUpdate e vm)) =
     min 7200 ((uint (getTimestamp e) - uint (m_lastUpdateTimestamp vm)) mod 2 ^ 64) \<and>
   (m_lastUpdateTimestamp vm \<le> getTimestamp e \<longrightarrow>
      uint (fst (getSecondsFromLastUpdate e vm)) =
        spec_elapsed (uint (getTimestamp e)) (uint (m_lastUpdateTimestamp vm))) \<and>
   m_lastUpdateTimestamp (snd (getSecondsFromLastUpdate e vm)) = getTimestamp e \<and>
   m_lastUpdateTimestamp (updateProgress e vm) = getTimestamp e"
proof -
  let ?d = "getTimestamp e - m_lastUpdateTimestamp vm"
  have d: "uint ?d = (uint (getTimestamp e) - uint (m_lastUpdateTimestamp vm)) mod 2 ^ 64"
    by (simp add: uint_word_ariths)
  have gt: "(?d > 7200) = (uint ?d > 7200)"
    by (simp add: word_less_def)
  have a: "fst (getSecondsFromLastUpdate e vm) = (if ?d > 7200 then 7200 else ?d)"
    by (simp add: getSecondsFromLastUpdate_fst kMaxEstimate_def)
  have b: "uint (fst (getSecondsFromLastUpdate e vm)) = min 7200 (uint ?d)"
    unfolding a using gt by (simp add: min_def)
  have c: "uint ?d = uint (getTimestamp e) - uint (m_lastUpdateTimestamp vm)"
    if "m_lastUpdateTimestamp vm \<le> getTimestamp e"
    using that by (simp add: uint_minus_simple_alt)
  have c': "uint (fst (getSecondsFromLastUpdate e vm)) =
        spec_elapsed (uint (getTimestamp e)) (uint (m_lastUpdateTimestamp vm))"
    if "m_lastUpdateTimestamp vm \<le> getTimestamp e"
    using that b c [OF that] by (simp add: spec_elapsed_def clamp_def word_le_def)
  show ?thesis
    using a b c' d by (simp add: getSecondsFromLastUpdate_frame updateProgress_timestamp)
qed

text \<open>
  Stored timestamp 100: at time 130 the elapsed time is 30, at time 9000 it is 7200.
\<close>

theorem getSecondsFromLastUpdate_elapsed_witness:
  "fst (getSecondsFromLastUpdate (ex_env False 130) (ex_vm\<lparr>m_lastUpdateTimestamp := 100\<rparr>)) = 30 \<and>
   spec_elapsed 130 100 = 30 \<and>
   fst (getSecondsFromLastUpdate (ex_env False 9000) (ex_vm\<lparr>m_lastUpdateTimestamp := 100\<rparr>)) = 7200 \<and>
   m_lastUpdateTimestamp (snd (getSecondsFromLastUpdate (ex_env False 130) (ex_vm\<lparr>m_lastUpdateTimestamp := 100\<rparr>))) = 130"
  using getSecondsFromLastUpdate_elapsed [of "ex_env False 130" "ex_vm\<lparr>m_lastUpdateTimestamp := 100\<rparr>"]
    getSecondsFromLastUpdate_elapsed [of "ex_env False 9000" "ex_vm\<lparr>m_lastUpdateTimestamp := 100\<rparr>"]
  by (simp add: ex_env_def spec_elapsed_def clamp_def)

text \<open>
  Claim C6 as stated fails when the clock reads less than the stored timestamp: stored
  100, now 50. The unsigned difference wraps to \<open>2^64 - 50\<close>, so the code returns 7200,
  where the clamp of \<open>50 - 100\<close> into \<open>[0, 7200]\<close> is 0.
\<close>

theorem getSecondsFromLastUpdate_clock_backwards:
  "fst (getSecondsFromLastUpdate (ex_env False 50) (ex_vm\<lparr>m_lastUpdateTimestamp := 100\<rparr>)) = 7200 \<and>
   spec_elapsed 50 100 = 0 \<and>
   uint (fst (getSecondsFromLastUpdate (ex_env False 50) (ex_vm\<lparr>m_lastUpdateTimestamp := 100\<rparr>)))
     \<noteq> spec_elapsed (uint (getTimestamp (ex_env False 50)))
          (uint (m_lastUpdateTimestamp (ex_vm\<lparr>m_lastUpdateTimestamp := 100\<rparr>)))"
  by (simp add: getSecondsFromLastUpdate_def ex_env_def kMaxEstimate_def Let_def
      spec_elapsed_def clamp_def)


lemma getEstimateStr_snd:
  "snd (getEstimateStr e s p vm) = vm\<lparr>m_lastEstimateSeconds := estimateSeconds s p vm\<rparr>"
  by (simp add: getEstimateStr_def Let_def split_def)

lemma ddiv_finite: "x \<noteq> 0 \<Longrightarrow> l \<noteq> 0 \<Longrightarrow> ddiv (Fin x) (Fin l) = dround (x / l)"
  by (simp add: ddiv_def)

lemma dadd_finite: "x \<noteq> 0 \<Longrightarrow> dadd (Fin x) (Fin l) = dround (x + l)"
  by (simp add: dadd_def)

text \<open>
  Claim C7. \<open>getEstimateStr\<close> changes \<open>m_lastEstimateSeconds\<close> and nothing else. With
  the new projection \<open>secondsFromLastUpdate / (progress - m_lastProgress)\<close>, it stores
  the projection when its ratio to the previous value is not greater than 2, and the
  arithmetic mean of the two when it is. Quotient, ratio, sum and half are the code's
  double operations: on finite non-zero values the ratio compared with 2 is the double
  nearest to the exact quotient, and the mean is half of the double nearest to the
  exact sum.
\<close>

theorem getEstimateStr_smoothing:
  "snd (getEstimateStr e s p vm) =
     vm\<lparr>m_lastEstimateSeconds :=
        (if dgt (ddiv (ddiv (of_ts_dbl s) (dsub p (m_lastProgress vm))) (m_lastEstimateSeconds vm))
              (Fin 2)
         then ddiv (dadd (ddiv (of_ts_dbl s) (dsub p (m_lastProgress vm)))
                     (m_lastEstimateSeconds vm)) (Fin 2)
         else ddiv (of_ts_dbl s) (dsub p (m_lastProgress vm)))\<rparr> \<and>
   (ddiv (of_ts_dbl s) (dsub p (m_lastProgress vm)) = Fin x \<and> x \<noteq> 0 \<and>
    m_lastEstimateSeconds vm = Fin l \<and> l \<noteq> 0 \<longrightarrow>
      m_lastEstimateSeconds (snd (getEstimateStr e s p vm)) =
        (if dgt (dround (x / l)) (Fin 2) then ddiv (dround (x + l)) (Fin 2) else Fin x))"
  by (simp add: getEstimateStr_snd) (simp add: estimateSeconds_def Let_def ddiv_finite dadd_finite)

text \<open>
  Previous estimate 10, 25 seconds for a step from \<open>1/4\<close> to \<open>3/4\<close>: the projection is 50,
  five times the previous one, and 30 is stored. Previous estimate 5, 3 seconds for a
  step from 0 to the double \<open>3/10.0\<close>: the projection is the double 10, the ratio is
  the double 2, not greater than 2, and 10 is stored.
\<close>

theorem getEstimateStr_smoothing_witness:
  "ddiv (of_ts_dbl 25) (dsub (Fin (3/4)) (Fin (1/4))) = Fin 50 \<and>
   m_lastEstimateSeconds (snd (getEstimateStr (ex_env False 0) 25 (Fin (3/4))
      (ex_vm\<lparr>m_lastProgress := Fin (1/4), m_lastEstimateSeconds := Fin 10\<rparr>))) = Fin 30 \<and>
   ddiv (of_int_dbl 3) (of_int_dbl 10) = Fin (5404319552844595 / 18014398509481984) \<and>
   ddiv (of_ts_dbl 3) (dsub (ddiv (of_int_dbl 3) (of_int_dbl 10)) (Fin 0)) = Fin 10 \<and>
   m_lastEstimateSeconds (snd (getEstimateStr (ex_env False 0) 3
      (ddiv (of_int_dbl 3) (of_int_dbl 10))
      (ex_vm\<lparr>m_lastProgress := Fin 0, m_lastEstimateSeconds := Fin 5\<rparr>))) = Fin 10"
proof -
  have a: "ddiv (of_ts_dbl 25) (dsub (Fin (3/4)) (Fin (1/4))) = Fin 50"
    by (simp add: dbl_defs)
  have b: "ddiv (of_int_dbl 3) (of_int_dbl 10) = Fin (5404319552844595 / 18014398509481984)"
    by (simp add: dbl_defs)
  have c: "ddiv (of_ts_dbl 3) (dsub (Fin (5404319552844595 / 18014398509481984)) (Fin 0)) = Fin 10"
    by (simp add: dbl_defs)
  have d: "(if dgt (dround (50 / 10)) (Fin 2) then ddiv (dround (50 + 10)) (Fin 2) else Fin 50) =
      Fin 30"
    by (simp add: dbl_defs)
  have d': "(if dgt (dround (10 / 5)) (Fin 2) then ddiv (dround (10 + 5)) (Fin 2) else Fin 10) =
      Fin 10"
    by (simp add: dbl_defs)
  have w1: "m_lastEstimateSeconds (snd (getEstimateStr (ex_env False 0) 25 (Fin (3/4))
      (ex_vm\<lparr>m_lastProgress := Fin (1/4), m_lastEstimateSeconds := Fin 10\<rparr>))) = Fin 30"
    using getEstimateStr_smoothing [THEN conjunct2, rule_format, of 25 "Fin (3/4)"
        "ex_vm\<lparr>m_lastProgress := Fin (1/4), m_lastEstimateSeconds := Fin 10\<rparr>" 50 10
        "ex_env False 0"] a
    unfolding d by simp
  have w2: "m_lastEstimateSeconds (snd (getEstimateStr (ex_env False 0) 3
      (Fin (5404319552844595 / 18014398509481984))
      (ex_vm\<lparr>m_lastProgress := Fin 0, m_lastEstimateSeconds := Fin 5\<rparr>))) = Fin 10"
    using getEstimateStr_smoothing [THEN conjunct2, rule_format, of 3
        "Fin (5404319552844595 / 18014398509481984)"
        "ex_vm\<lparr>m_lastProgress := Fin 0, m_lastEstimateSeconds := Fin 5\<rparr>" 10 5
        "ex_env False 0"] c
    unfolding d' by simp
  show ?thesis using a b c w1 w2 by simp
qed

text \<open>
  Claim C10. In creation mode, each of \<open>NodeProtocolIncompatible\<close>, \<open>ConnectionAddrInUse\<close>,
  \<open>ConnectionRefused\<close> and \<open>HostResolvedError\<close> makes the handler return with one more
  signal in the log, \<open>walletError\<close> with the string of \<open>GetErrorString\<close> as it is, and
  with every data member unchanged.
\<close>

theorem onGetWalletError_creating_mapped:
  "m_isCreating vm \<and>
   error \<in> {NodeProtocolIncompatible, ConnectionAddrInUse, ConnectionRefused, HostResolvedError} \<longrightarrow>
     onGetWalletError e error vm =
       Inr (vm\<lparr>emitted := emitted vm @
              [WalletError (qtTrId e (if error = NodeProtocolIncompatible
                                      then ''loading-view-protocol-error''
                                      else ''loading-view-connection-error''))
                           (GetErrorString e error)]\<rparr>)"
  by (auto simp: onGetWalletError_def emit_def)

text \<open>
  \<open>ConnectionRefused\<close> in creation mode.
\<close>

theorem onGetWalletError_creating_mapped_witness:
  "onGetWalletError (ex_env False 0) ConnectionRefused (ex_vm\<lparr>m_isCreating := True\<rparr>) =
     Inr (ex_vm\<lparr>m_isCreating := True,
                emitted := [WalletError ''loading-view-connection-error'' ''description'']\<rparr>)"
  using onGetWalletError_creating_mapped
    [of "ex_vm\<lparr>m_isCreating := True\<rparr>" ConnectionRefused "ex_env False 0"]
  by (simp add: ex_vm_simps ex_env_def)


subsection \<open>Signals of a progress update\<close>

lemma new_signals_append: "emitted vm' = emitted vm @ xs \<Longrightarrow> new_signals vm vm' = xs"
  by (simp add: new_signals_def)

lemma emitted_setProgress:
  "emitted (setProgress v vm) =
     emitted vm @ (if dgt v (m_progress vm) then [ProgressChanged] else [])"
  by (simp add: setProgress_def emit_def)

lemma emitted_setProgressMessage:
  "emitted (setProgressMessage x vm) =
     emitted vm @ (if m_progressMessage vm \<noteq> x then [ProgressMessageChanged] else [])"
  by (simp add: setProgressMessage_def emit_def)

lemma emitted_updateProgress_phase:
  "emitted (snd (snd (updateProgress_phase e vm))) =
     emitted vm @
       (if getRunLocalNode e \<and> (m_nodeTotal vm = 0 \<or> m_nodeDone vm < m_nodeTotal vm) then []
        else if m_done vm < m_total vm then [] else [SyncCompleted])"
  by (simp add: updateProgress_phase_def Let_def emit_def)

lemma emitted_updateProgress:
  "\<exists>xs. emitted (updateProgress e vm) = emitted (snd (snd (updateProgress_phase e vm))) @ xs \<and>
        set xs \<subseteq> {ProgressMessageChanged, ProgressChanged}"
  by (auto simp: updateProgress_unfold Let_def emitted_setProgress emitted_setProgressMessage
      getEstimateStr_frame getSecondsFromLastUpdate_frame)

lemma new_signals_updateProgress:
  "\<exists>xs. new_signals vm (updateProgress e vm) =
          (if getRunLocalNode e \<and> (m_nodeTotal vm = 0 \<or> m_nodeDone vm < m_nodeTotal vm) then []
           else if m_done vm < m_total vm then [] else [SyncCompleted]) @ xs \<and>
        set xs \<subseteq> {ProgressMessageChanged, ProgressChanged}"
proof -
  obtain xs where xs: "emitted (updateProgress e vm) =
      emitted (snd (snd (updateProgress_phase e vm))) @ xs"
    and sub: "set xs \<subseteq> {ProgressMessageChanged, ProgressChanged}"
    using emitted_updateProgress by blast
  have "new_signals vm (updateProgress e vm) =
          (if getRunLocalNode e \<and> (m_nodeTotal vm = 0 \<or> m_nodeDone vm < m_nodeTotal vm) then []
           else if m_done vm < m_total vm then [] else [SyncCompleted]) @ xs"
    by (rule new_signals_append) (simp add: xs emitted_updateProgress_phase)
  then show ?thesis using sub by blast
qed

lemma setProgressMessage_message: "m_progressMessage (setProgressMessage x vm) = x"
  by (simp add: setProgressMessage_def emit_def)

lemma updateProgress_progressMessage:
  "m_progressMessage (updateProgress e vm) =
     (if dgt (fst (updateProgress_phase e vm)) (Fin 0)
      then fst (snd (updateProgress_phase e vm)) @
           asprintf_lf e '' %.2lf%%'' (dmul (fst (updateProgress_phase e vm)) (Fin 100)) @
           fst (getEstimateStr e
                 (fst (getSecondsFromLastUpdate e (snd (snd (updateProgress_phase e vm)))))
                 (fst (updateProgress_phase e vm))
                 (snd (getSecondsFromLastUpdate e (snd (snd (updateProgress_phase e vm))))))
      else fst (snd (updateProgress_phase e vm)))"
  by (simp add: updateProgress_unfold Let_def setProgress_frame setProgressMessage_message)

lemma emitted_updateProgress_eq:
  "emitted (updateProgress e vm) =
     emitted vm @
     (if getRunLocalNode e \<and> (m_nodeTotal vm = 0 \<or> m_nodeDone vm < m_nodeTotal vm) then []
      else if m_done vm < m_total vm then [] else [SyncCompleted]) @
     (if m_progressMessage vm \<noteq> m_progressMessage (updateProgress e vm)
      then [ProgressMessageChanged] else []) @
     (if dgt (fst (updateProgress_phase e vm)) (m_progress vm) then [ProgressChanged] else [])"
proof -
  let ?p = "fst (updateProgress_phase e vm)"
  let ?vm1 = "snd (snd (updateProgress_phase e vm))"
  let ?s = "fst (getSecondsFromLastUpdate e ?vm1)"
  let ?vm2 = "snd (getSecondsFromLastUpdate e ?vm1)"
  let ?vm3 = "if dgt ?p (Fin 0) then snd (getEstimateStr e ?s ?p ?vm2) else ?vm2"
  let ?msg = "m_progressMessage (updateProgress e vm)"
  have u: "updateProgress e vm = setProgress ?p (setProgressMessage ?msg ?vm3)"
    by (simp add: updateProgress_progressMessage) (simp add: updateProgress_unfold Let_def)
  have m3: "m_progressMessage ?vm3 = m_progressMessage vm"
    by (simp add: getEstimateStr_frame getSecondsFromLastUpdate_frame updateProgress_phase_frame)
  have p3: "m_progress ?vm3 = m_progress vm"
    by (simp add: getEstimateStr_frame getSecondsFromLastUpdate_frame updateProgress_phase_frame)
  have e3: "emitted ?vm3 = emitted ?vm1"
    by (simp add: getEstimateStr_frame getSecondsFromLastUpdate_frame)
  have "emitted (setProgress ?p (setProgressMessage ?msg ?vm3)) =
      emitted ?vm1 @
      (if m_progressMessage vm \<noteq> ?msg then [ProgressMessageChanged] else []) @
      (if dgt ?p (m_progress vm) then [ProgressChanged] else [])"
    unfolding emitted_setProgress emitted_setProgressMessage setProgressMessage_frame m3 p3 e3
    by simp
  then show ?thesis
    using u by (simp add: emitted_updateProgress_phase)
qed

lemma updateProgress_phase_msg:
  "fst (snd (updateProgress_phase e vm)) =
     (if getRunLocalNode e \<and> (m_nodeTotal vm = 0 \<or> m_nodeDone vm < m_nodeTotal vm)
      then qtTrId e ''loading-view-download-blocks''
      else if m_done vm < m_total vm
           then asprintf_d_d e (qtTrId e ''loading-view-scaning-utxo'') (m_done vm) (m_total vm)
           else [])"
  by (auto simp: updateProgress_phase_def Let_def)

subsection \<open>The raw fraction\<close>

lemma dround_0: "dround 0 = Fin 0"
  by (simp add: dround_def)

lemma raw_fraction:
  "0 < t \<Longrightarrow> dmin (Fin 1) (ddiv (of_int_dbl d) (of_int_dbl t)) =
     dround (min 1 (real_of_int d / real_of_int t))"
proof -
  assume t: "0 < t"
  have "ddiv (of_int_dbl d) (of_int_dbl t) = dround (real_of_int d / real_of_int t)"
    using t by (simp add: of_int_dbl_def ddiv_def dzero_def dround_def)
  then show ?thesis by (simp add: dmin_dround)
qed

lemma dround_spec_rawFraction:
  "dround (spec_rawFraction d t) =
     (if t > 0 then dround (min 1 (real_of_int d / real_of_int t)) else Fin 0)"
  by (simp add: spec_rawFraction_def dround_def)

lemma updateProgress_phase_fst:
  "fst (updateProgress_phase e vm) =
     (if getRunLocalNode e \<and> (m_nodeTotal vm = 0 \<or> m_nodeDone vm < m_nodeTotal vm)
      then dround (spec_rawFraction (m_nodeDone vm) (m_nodeTotal vm))
      else dround (spec_rawFraction (m_done vm) (m_total vm)))"
  by (auto simp: updateProgress_phase_def Let_def dround_spec_rawFraction raw_fraction)

text \<open>
  Claim C5. With a local node and node counters that are zero in total or not yet
  complete, \<open>updateProgress\<close> takes the downloading branch: the fraction is
  \<open>min(1, m_nodeDone / m_nodeTotal)\<close> when \<open>m_nodeTotal > 0\<close> and 0 otherwise, the message
  starts from the download text, and no \<open>syncCompleted\<close> is emitted. Otherwise it takes the
  scanning branch: the fraction is computed the same way from \<open>m_done\<close> and \<open>m_total\<close>,
  and \<open>syncCompleted\<close> is emitted exactly when \<open>m_done >= m_total\<close>. The fraction is a
  double: the code's \<open>std::min(1., done / static_cast<double>(total))\<close> is the double
  nearest to the real number \<open>min(1, done / total)\<close>.
\<close>

theorem updateProgress_phase_selection:
  "(getRunLocalNode e \<and> (m_nodeTotal vm = 0 \<or> m_nodeDone vm < m_nodeTotal vm) \<longrightarrow>
      updateProgress_phase e vm =
        (dround (if m_nodeTotal vm > 0
                 then min 1 (real_of_int (m_nodeDone vm) / real_of_int (m_nodeTotal vm)) else 0),
         qtTrId e ''loading-view-download-blocks'', vm) \<and>
      SyncCompleted \<notin> set (new_signals vm (updateProgress e vm))) \<and>
   (\<not> (getRunLocalNode e \<and> (m_nodeTotal vm = 0 \<or> m_nodeDone vm < m_nodeTotal vm)) \<longrightarrow>
      fst (updateProgress_phase e vm) =
        dround (if m_total vm > 0
                then min 1 (real_of_int (m_done vm) / real_of_int (m_total vm)) else 0) \<and>
      (m_done vm < m_total vm \<longrightarrow>
         snd (updateProgress_phase e vm) =
           (asprintf_d_d e (qtTrId e ''loading-view-scaning-utxo'') (m_done vm) (m_total vm), vm) \<and>
         SyncCompleted \<notin> set (new_signals vm (updateProgress e vm))) \<and>
      (m_done vm \<ge> m_total vm \<longrightarrow>
         snd (updateProgress_phase e vm) = ([], emit SyncCompleted vm) \<and>
         SyncCompleted \<in> set (new_signals vm (updateProgress e vm))))"
proof -
  obtain xs where xs: "new_signals vm (updateProgress e vm) =
          (if getRunLocalNode e \<and> (m_nodeTotal vm = 0 \<or> m_nodeDone vm < m_nodeTotal vm) then []
           else if m_done vm < m_total vm then [] else [SyncCompleted]) @ xs"
    and sub: "set xs \<subseteq> {ProgressMessageChanged, ProgressChanged}"
    using new_signals_updateProgress by blast
  have nin: "SyncCompleted \<notin> set xs" using sub by auto
  have a: "getRunLocalNode e \<and> (m_nodeTotal vm = 0 \<or> m_nodeDone vm < m_nodeTotal vm) \<Longrightarrow>
      updateProgress_phase e vm =
        (dround (if m_nodeTotal vm > 0
                 then min 1 (real_of_int (m_nodeDone vm) / real_of_int (m_nodeTotal vm)) else 0),
         qtTrId e ''loading-view-download-blocks'', vm)"
    by (auto simp: updateProgress_phase_def Let_def raw_fraction dround_0)
  have b: "\<not> (getRunLocalNode e \<and> (m_nodeTotal vm = 0 \<or> m_nodeDone vm < m_nodeTotal vm)) \<Longrightarrow>
      fst (updateProgress_phase e vm) =
        dround (if m_total vm > 0
                then min 1 (real_of_int (m_done vm) / real_of_int (m_total vm)) else 0)"
    by (auto simp: updateProgress_phase_def Let_def raw_fraction dround_0)
  have c: "\<not> (getRunLocalNode e \<and> (m_nodeTotal vm = 0 \<or> m_nodeDone vm < m_nodeTotal vm)) \<Longrightarrow>
      snd (updateProgress_phase e vm) =
        (if m_done vm < m_total vm
         then (asprintf_d_d e (qtTrId e ''loading-view-scaning-utxo'') (m_done vm) (m_total vm), vm)
         else ([], emit SyncCompleted vm))"
    by (auto simp: updateProgress_phase_def Let_def)
  show ?thesis
  proof (cases "getRunLocalNode e \<and> (m_nodeTotal vm = 0 \<or> m_nodeDone vm < m_nodeTotal vm)")
    case True
    then show ?thesis using a xs nin by simp
  next
    case False
    have "SyncCompleted \<in> set (new_signals vm (updateProgress e vm)) = (\<not> m_done vm < m_total vm)"
      unfolding xs using False nin by simp
    moreover have "\<not> (getRunLocalNode e \<and> (m_nodeTotal vm = 0 \<or> m_nodeDone vm < m_nodeTotal vm))"
      using False .
    ultimately show ?thesis using b [OF False] c [OF False] by auto
  qed
qed

text \<open>
  A local node at 5 of 10 blocks: downloading, fraction \<open>1/2\<close>. Node complete and 3 of 10
  outputs scanned: scanning, the fraction is the double nearest to \<open>3/10\<close>, no
  completion. 10 of 10 scanned: completion.
\<close>

theorem updateProgress_phase_selection_witness:
  "updateProgress_phase (ex_env True 0) (ex_vm\<lparr>m_nodeDone := 5, m_nodeTotal := 10\<rparr>) =
     (Fin (1/2), ''loading-view-download-blocks'', ex_vm\<lparr>m_nodeDone := 5, m_nodeTotal := 10\<rparr>) \<and>
   SyncCompleted \<notin> set (new_signals (ex_vm\<lparr>m_nodeDone := 5, m_nodeTotal := 10\<rparr>)
      (updateProgress (ex_env True 0) (ex_vm\<lparr>m_nodeDone := 5, m_nodeTotal := 10\<rparr>))) \<and>
   fst (updateProgress_phase (ex_env True 0)
      (ex_vm\<lparr>m_nodeDone := 10, m_nodeTotal := 10, m_done := 3, m_total := 10\<rparr>)) =
     Fin (5404319552844595 / 18014398509481984) \<and>
   SyncCompleted \<notin> set (new_signals
      (ex_vm\<lparr>m_nodeDone := 10, m_nodeTotal := 10, m_done := 3, m_total := 10\<rparr>)
      (updateProgress (ex_env True 0)
         (ex_vm\<lparr>m_nodeDone := 10, m_nodeTotal := 10, m_done := 3, m_total := 10\<rparr>))) \<and>
   SyncCompleted \<in> set (new_signals (ex_vm\<lparr>m_done := 10, m_total := 10\<rparr>)
      (updateProgress (ex_env False 0) (ex_vm\<lparr>m_done := 10, m_total := 10\<rparr>)))"
  using updateProgress_phase_selection
      [of "ex_env True 0" "ex_vm\<lparr>m_nodeDone := 5, m_nodeTotal := 10\<rparr>"]
    updateProgress_phase_selection
      [of "ex_env True 0" "ex_vm\<lparr>m_nodeDone := 10, m_nodeTotal := 10, m_done := 3, m_total := 10\<rparr>"]
    updateProgress_phase_selection
      [of "ex_env False 0" "ex_vm\<lparr>m_done := 10, m_total := 10\<rparr>"]
  by (simp add: ex_env_def ex_vm_simps dround_defs)


subsection \<open>Errors\<close>

lemma onGetWalletError_rest_other:
  "error \<noteq> ConnectionAddrInUse \<Longrightarrow>
     onGetWalletError_rest e error vm = emit SyncCompleted (updateProgress e vm)"
  by (cases error) (simp_all add: onGetWalletError_rest_def)

lemma no_walletError_updateProgress:
  "WalletError t d \<notin> set (new_signals vm (emit SyncCompleted (updateProgress e vm)))"
proof -
  obtain xs where xs: "new_signals vm (updateProgress e vm) =
          (if getRunLocalNode e \<and> (m_nodeTotal vm = 0 \<or> m_nodeDone vm < m_nodeTotal vm) then []
           else if m_done vm < m_total vm then [] else [SyncCompleted]) @ xs"
    and sub: "set xs \<subseteq> {ProgressMessageChanged, ProgressChanged}"
    using new_signals_updateProgress by blast
  obtain ys where ys: "emitted (updateProgress e vm) = emitted (snd (snd (updateProgress_phase e vm))) @ ys"
    using emitted_updateProgress by blast
  have len: "length (emitted vm) \<le> length (emitted (updateProgress e vm))"
    by (simp add: ys emitted_updateProgress_phase)
  have "new_signals vm (emit SyncCompleted (updateProgress e vm)) =
          new_signals vm (updateProgress e vm) @ [SyncCompleted]"
    using len by (simp add: new_signals_def emit_def)
  moreover have "WalletError t d \<notin> set xs" using sub by auto
  ultimately show ?thesis by (simp add: xs)
qed

text \<open>
  Claim C2, as the code has it. In normal mode, every error kind other than
  \<open>ConnectionAddrInUse\<close> runs \<open>updateProgress\<close> on the current counters and then emits
  \<open>syncCompleted\<close>, the same signal that a finished scan emits; the class has no separate
  signal for a completion with an error. No \<open>walletError\<close> is emitted on this path.
\<close>

theorem onGetWalletError_normal_fallback:
  "\<not> m_isCreating vm \<and> error \<noteq> ConnectionAddrInUse \<longrightarrow>
     onGetWalletError e error vm = Inr (emit SyncCompleted (updateProgress e vm)) \<and>
     last (emitted (emit SyncCompleted (updateProgress e vm))) = SyncCompleted \<and>
     WalletError t d \<notin> set (new_signals vm (emit SyncCompleted (updateProgress e vm)))"
  using no_walletError_updateProgress [of t d vm e]
  by (simp add: onGetWalletError_def onGetWalletError_rest_other emit_def)

text \<open>
  \<open>NodeProtocolIncompatible\<close> in normal mode, with 3 of 10 outputs scanned.
\<close>

theorem onGetWalletError_normal_fallback_witness:
  "onGetWalletError (ex_env False 50) NodeProtocolIncompatible (ex_vm\<lparr>m_done := 3, m_total := 10\<rparr>) =
     Inr (emit SyncCompleted (updateProgress (ex_env False 50) (ex_vm\<lparr>m_done := 3, m_total := 10\<rparr>)))"
  using onGetWalletError_normal_fallback
    [of "ex_vm\<lparr>m_done := 3, m_total := 10\<rparr>" NodeProtocolIncompatible "ex_env False 50"]
  by (simp add: ex_vm_simps)

text \<open>
  Claim C2 as stated fails: the signal that ends the handling of
  \<open>NodeProtocolIncompatible\<close> in normal mode is the plain \<open>syncCompleted\<close>.
\<close>

theorem onGetWalletError_normal_emits_syncCompleted:
  "signals_after (onGetWalletError (ex_env False 50) NodeProtocolIncompatible
      (ex_vm\<lparr>m_done := 3, m_total := 10\<rparr>)) =
     Some [ProgressMessageChanged, ProgressChanged, SyncCompleted]"
proof -
  let ?e = "ex_env False 50"
  let ?vm = "ex_vm\<lparr>m_done := 3, m_total := 10\<rparr>"
  have p: "fst (updateProgress_phase ?e ?vm) = Fin (5404319552844595 / 18014398509481984)"
    by (simp add: updateProgress_phase_fst spec_rawFraction_def ex_env_def dround_defs)
  have m: "fst (snd (updateProgress_phase ?e ?vm)) = ''loading-view-scaning-utxo''"
    by (simp add: updateProgress_phase_msg ex_env_def)
  have msg: "m_progressMessage ?vm \<noteq> m_progressMessage (updateProgress ?e ?vm)"
    by (simp add: updateProgress_progressMessage p m ex_vm_simps dgt_def dlt_def)
  have "emitted (updateProgress ?e ?vm) = [ProgressMessageChanged, ProgressChanged]"
    unfolding emitted_updateProgress_eq p using msg
    by (simp add: ex_vm_simps ex_env_def dgt_def dlt_def)
  then show ?thesis
    by (simp add: signals_after_def onGetWalletError_def onGetWalletError_rest_def ex_vm_simps
        emit_def)
qed

text \<open>
  Claim C3, as the code has it. In creation mode, an error kind outside the four mapped
  ones reaches \<open>assert(false && "Unsupported error code!")\<close>: with assertions enabled the
  process stops there; with \<open>NDEBUG\<close> the handler continues on the normal-mode path,
  which recomputes the progress and emits \<open>syncCompleted\<close>. Neither way emits a
  \<open>walletError\<close>.
\<close>

theorem onGetWalletError_creating_unmapped:
  "m_isCreating vm \<and>
   error \<notin> {NodeProtocolIncompatible, ConnectionAddrInUse, ConnectionRefused, HostResolvedError} \<longrightarrow>
     onGetWalletError e error vm =
       (if NDEBUG e then Inr (emit SyncCompleted (updateProgress e vm)) else Inl AssertionFailed) \<and>
     WalletError t d \<notin> set (new_signals vm (emit SyncCompleted (updateProgress e vm)))"
  using no_walletError_updateProgress [of t d vm e]
  by (cases error) (simp_all add: onGetWalletError_def onGetWalletError_rest_def)

text \<open>
  An unmapped kind in creation mode, with assertions enabled and with \<open>NDEBUG\<close>.
\<close>

theorem onGetWalletError_creating_unmapped_witness:
  "onGetWalletError (ex_env False 0) (OtherError 0) (ex_vm\<lparr>m_isCreating := True\<rparr>) =
     Inl AssertionFailed \<and>
   onGetWalletError ((ex_env False 0)\<lparr>NDEBUG := True\<rparr>) (OtherError 0) (ex_vm\<lparr>m_isCreating := True\<rparr>) =
     Inr (emit SyncCompleted
           (updateProgress ((ex_env False 0)\<lparr>NDEBUG := True\<rparr>) (ex_vm\<lparr>m_isCreating := True\<rparr>)))"
  using onGetWalletError_creating_unmapped
      [of "ex_vm\<lparr>m_isCreating := True\<rparr>" "OtherError 0" "ex_env False 0"]
    onGetWalletError_creating_unmapped
      [of "ex_vm\<lparr>m_isCreating := True\<rparr>" "OtherError 0" "(ex_env False 0)\<lparr>NDEBUG := True\<rparr>"]
  by (simp add: ex_env_def)

text \<open>
  Claim C3 as stated fails: an unmapped kind in creation mode, in a build with
  assertions, ends in the failed assertion and no notification is emitted.
\<close>

theorem onGetWalletError_creating_unmapped_aborts:
  "onGetWalletError (ex_env False 0) (OtherError 0) (ex_vm\<lparr>m_isCreating := True\<rparr>) =
     Inl AssertionFailed \<and>
   signals_after (onGetWalletError (ex_env False 0) (OtherError 0) (ex_vm\<lparr>m_isCreating := True\<rparr>)) =
     None"
  by (simp add: onGetWalletError_def signals_after_def ex_env_def)


subsection \<open>The ratchet and the projection\<close>

lemma updateProgress_progress:
  "m_progress (updateProgress e vm) =
     (if dgt (fst (updateProgress_phase e vm)) (m_progress vm)
      then fst (updateProgress_phase e vm) else m_progress vm)"
  by (simp add: updateProgress_unfold Let_def setProgress_def emit_def setProgressMessage_frame
      getEstimateStr_frame getSecondsFromLastUpdate_frame updateProgress_phase_frame)

lemma updateProgress_lastProgress:
  "m_lastProgress (updateProgress e vm) =
     (if dgt (fst (updateProgress_phase e vm)) (m_progress vm)
      then m_progress vm else m_lastProgress vm)"
  by (simp add: updateProgress_unfold Let_def setProgress_def emit_def setProgressMessage_frame
      getEstimateStr_frame getSecondsFromLastUpdate_frame updateProgress_phase_frame)

lemma updateProgress_lastEstimateSeconds:
  "m_lastEstimateSeconds (updateProgress e vm) =
     (if dgt (fst (updateProgress_phase e vm)) (Fin 0)
      then estimateSeconds
             (fst (getSecondsFromLastUpdate e (snd (snd (updateProgress_phase e vm)))))
             (fst (updateProgress_phase e vm)) vm
      else m_lastEstimateSeconds vm)"
  by (simp add: updateProgress_unfold Let_def setProgress_frame setProgressMessage_frame
      getEstimateStr_frame getSecondsFromLastUpdate_frame updateProgress_phase_frame
      estimateSeconds_def)

lemma updateProgress_no_progressChanged:
  assumes n: "\<not> dgt (fst (updateProgress_phase e vm)) (m_progress vm)"
  shows "ProgressChanged \<notin> set (new_signals vm (updateProgress e vm))"
proof -
  have "\<exists>xs. emitted (updateProgress e vm) =
                emitted (snd (snd (updateProgress_phase e vm))) @ xs \<and>
              set xs \<subseteq> {ProgressMessageChanged}"
    using n
    by (auto simp: updateProgress_unfold Let_def emitted_setProgress emitted_setProgressMessage
        setProgressMessage_frame getEstimateStr_frame getSecondsFromLastUpdate_frame
        updateProgress_phase_frame)
  then obtain xs where xs: "emitted (updateProgress e vm) =
      emitted (snd (snd (updateProgress_phase e vm))) @ xs"
    and sub: "set xs \<subseteq> {ProgressMessageChanged}"
    by blast
  have "new_signals vm (updateProgress e vm) =
       (if getRunLocalNode e \<and> (m_nodeTotal vm = 0 \<or> m_nodeDone vm < m_nodeTotal vm) then []
        else if m_done vm < m_total vm then [] else [SyncCompleted]) @ xs"
    by (rule new_signals_append) (simp add: xs emitted_updateProgress_phase)
  moreover have "ProgressChanged \<notin> set xs" using sub by auto
  ultimately show ?thesis by simp
qed

text \<open>
  Claim C1, as the code has it. When the raw fraction of an update is not greater than
  the stored fraction, the stored fraction and \<open>m_lastProgress\<close> stay as they are and no
  \<open>progressChanged\<close> is emitted. The projection does not depend on that: every update
  whose raw fraction is greater than 0 recomputes it from the elapsed time, the raw
  fraction, \<open>m_lastProgress\<close> and the previous estimate, stores it in
  \<open>m_lastEstimateSeconds\<close> and puts the text of \<open>getEstimateStr\<close> at the end of the
  message; the ratchet of \<open>setProgress\<close> runs afterwards. An update whose raw fraction
  is not greater than 0 leaves the estimate alone and sets the bare phase message.
\<close>

theorem updateProgress_ratchet_after_projection:
  "(\<not> dgt (fst (updateProgress_phase e vm)) (m_progress vm) \<longrightarrow>
      m_progress (updateProgress e vm) = m_progress vm \<and>
      m_lastProgress (updateProgress e vm) = m_lastProgress vm \<and>
      ProgressChanged \<notin> set (new_signals vm (updateProgress e vm))) \<and>
   (dgt (fst (updateProgress_phase e vm)) (Fin 0) \<longrightarrow>
      m_lastEstimateSeconds (updateProgress e vm) =
        estimateSeconds
          (fst (getSecondsFromLastUpdate e (snd (snd (updateProgress_phase e vm)))))
          (fst (updateProgress_phase e vm)) vm) \<and>
   (\<not> dgt (fst (updateProgress_phase e vm)) (Fin 0) \<longrightarrow>
      m_lastEstimateSeconds (updateProgress e vm) = m_lastEstimateSeconds vm) \<and>
   m_progressMessage (updateProgress e vm) =
     (if dgt (fst (updateProgress_phase e vm)) (Fin 0)
      then fst (snd (updateProgress_phase e vm)) @
           asprintf_lf e '' %.2lf%%'' (dmul (fst (updateProgress_phase e vm)) (Fin 100)) @
           fst (getEstimateStr e
                 (fst (getSecondsFromLastUpdate e (snd (snd (updateProgress_phase e vm)))))
                 (fst (updateProgress_phase e vm))
                 (snd (getSecondsFromLastUpdate e (snd (snd (updateProgress_phase e vm))))))
      else fst (snd (updateProgress_phase e vm)))"
  using updateProgress_no_progressChanged [of e vm]
  by (simp add: updateProgress_progress updateProgress_lastProgress
      updateProgress_lastEstimateSeconds updateProgress_progressMessage)


subsection \<open>The example updates\<close>

lemma estimateSeconds_after_clock:
  "estimateSeconds s p (snd (getSecondsFromLastUpdate e (snd (snd (updateProgress_phase e' vm))))) =
     estimateSeconds s p vm"
  by (rule estimateSeconds_cong)
    (simp_all add: getSecondsFromLastUpdate_frame updateProgress_phase_frame)

lemma updateProgress_fields:
  assumes p: "fst (updateProgress_phase e vm) = p"
    and s: "(if getTimestamp e - m_lastUpdateTimestamp vm > kMaxEstimate then kMaxEstimate
             else getTimestamp e - m_lastUpdateTimestamp vm) = s"
    and est: "estimateSeconds s p vm = est"
  shows "m_progress (updateProgress e vm) = (if dgt p (m_progress vm) then p else m_progress vm)"
    and "m_lastProgress (updateProgress e vm) =
           (if dgt p (m_progress vm) then m_progress vm else m_lastProgress vm)"
    and "m_lastEstimateSeconds (updateProgress e vm) =
           (if dgt p (Fin 0) then est else m_lastEstimateSeconds vm)"
    and "m_lastUpdateTimestamp (updateProgress e vm) = getTimestamp e"
    and "m_progressMessage (updateProgress e vm) =
           (if dgt p (Fin 0)
            then fst (snd (updateProgress_phase e vm)) @
                 asprintf_lf e '' %.2lf%%'' (dmul p (Fin 100)) @ '' '' @
                 asprintf_s e (qtTrId e ''loading-view-estimate-time'')
                   (asprintf_lf_s e ''%.0lf %s''
                      (if dgt est kSecondsInMinute then dceil (ddiv est kSecondsInMinute)
                       else if dgt est (Fin 0) then dceil est else Fin 1)
                      (if dgt est kSecondsInMinute
                       then qtTrId e ''loading-view-estimate-minutes''
                       else qtTrId e ''loading-view-estimate-seconds''))
            else fst (snd (updateProgress_phase e vm)))"
proof -
  have s': "fst (getSecondsFromLastUpdate e (snd (snd (updateProgress_phase e vm)))) = s"
    unfolding getSecondsFromLastUpdate_fst updateProgress_phase_frame by (rule s)
  show "m_progress (updateProgress e vm) = (if dgt p (m_progress vm) then p else m_progress vm)"
    by (simp add: updateProgress_progress p)
  show "m_lastProgress (updateProgress e vm) =
           (if dgt p (m_progress vm) then m_progress vm else m_lastProgress vm)"
    by (simp add: updateProgress_lastProgress p)
  show "m_lastEstimateSeconds (updateProgress e vm) =
           (if dgt p (Fin 0) then est else m_lastEstimateSeconds vm)"
    by (simp add: updateProgress_lastEstimateSeconds p s' est)
  show "m_lastUpdateTimestamp (updateProgress e vm) = getTimestamp e"
    by (rule updateProgress_timestamp)
  show "m_progressMessage (updateProgress e vm) =
           (if dgt p (Fin 0)
            then fst (snd (updateProgress_phase e vm)) @
                 asprintf_lf e '' %.2lf%%'' (dmul p (Fin 100)) @ '' '' @
                 asprintf_s e (qtTrId e ''loading-view-estimate-time'')
                   (asprintf_lf_s e ''%.0lf %s''
                      (if dgt est kSecondsInMinute then dceil (ddiv est kSecondsInMinute)
                       else if dgt est (Fin 0) then dceil est else Fin 1)
                      (if dgt est kSecondsInMinute
                       then qtTrId e ''loading-view-estimate-minutes''
                       else qtTrId e ''loading-view-estimate-seconds''))
            else fst (snd (updateProgress_phase e vm)))"
    unfolding updateProgress_progressMessage p s' getEstimateStr_fst estimateSeconds_after_clock est
    by simp
qed

text \<open>The fresh view model after the scan update 1 of 2 at time 10.\<close>

lemma ex_vm_half_fields:
  "m_progress (onSyncProgressUpdated (ex_env False 10) 1 2 ex_vm) = Fin (1/2)"
  "m_lastProgress (onSyncProgressUpdated (ex_env False 10) 1 2 ex_vm) = Fin 0"
  "m_lastEstimateSeconds (onSyncProgressUpdated (ex_env False 10) 1 2 ex_vm) = Fin 10"
  "m_lastUpdateTimestamp (onSyncProgressUpdated (ex_env False 10) 1 2 ex_vm) = 10"
  "m_progressMessage (onSyncProgressUpdated (ex_env False 10) 1 2 ex_vm) =
     ''loading-view-scaning-utxo %.2lf%% loading-view-estimate-time%.0lf %sloading-view-estimate-seconds''"
proof -
  let ?e = "ex_env False 10"
  let ?vm = "ex_vm\<lparr>m_done := 1, m_total := 2\<rparr>"
  have p: "fst (updateProgress_phase ?e ?vm) = Fin (1/2)"
    by (simp add: updateProgress_phase_fst spec_rawFraction_def ex_env_def dround_defs)
  have m: "fst (snd (updateProgress_phase ?e ?vm)) = ''loading-view-scaning-utxo''"
    by (simp add: updateProgress_phase_msg ex_env_def)
  have s: "(if getTimestamp ?e - m_lastUpdateTimestamp ?vm > kMaxEstimate then kMaxEstimate
             else getTimestamp ?e - m_lastUpdateTimestamp ?vm) = 10"
    by (simp add: ex_env_def ex_vm_simps kMaxEstimate_def)
  have est: "estimateSeconds 10 (Fin (1/2)) ?vm = Fin 10"
    by (simp add: estimateSeconds_unfold ex_vm_simps dbl_defs)
  note f = updateProgress_fields [OF p s est]
  show "m_progress (onSyncProgressUpdated ?e 1 2 ex_vm) = Fin (1/2)"
    by (simp add: onSyncProgressUpdated_def f ex_vm_simps dgt_def dlt_def)
  show "m_lastProgress (onSyncProgressUpdated ?e 1 2 ex_vm) = Fin 0"
    by (simp add: onSyncProgressUpdated_def f ex_vm_simps dgt_def dlt_def)
  show "m_lastEstimateSeconds (onSyncProgressUpdated ?e 1 2 ex_vm) = Fin 10"
    by (simp add: onSyncProgressUpdated_def f dgt_def dlt_def)
  have ts: "getTimestamp ?e = 10" by (simp add: ex_env_def)
  show "m_lastUpdateTimestamp (onSyncProgressUpdated ?e 1 2 ex_vm) = 10"
    by (simp add: onSyncProgressUpdated_def f ts)
  show "m_progressMessage (onSyncProgressUpdated ?e 1 2 ex_vm) =
     ''loading-view-scaning-utxo %.2lf%% loading-view-estimate-time%.0lf %sloading-view-estimate-seconds''"
    by (simp add: onSyncProgressUpdated_def f m dgt_def dlt_def kSecondsInMinute_def)
      (simp add: ex_env_def)
qed

text \<open>The advanced view model: then 3 of 4 at time 20.\<close>

lemma ex_vm_advanced_fields:
  "m_progress ex_vm_advanced = Fin (3/4)"
  "m_lastProgress ex_vm_advanced = Fin (1/2)"
  "m_lastEstimateSeconds ex_vm_advanced = Fin (7505999378950827 / 562949953421312)"
  "m_lastUpdateTimestamp ex_vm_advanced = 20"
  "m_progressMessage ex_vm_advanced =
     ''loading-view-scaning-utxo %.2lf%% loading-view-estimate-time%.0lf %sloading-view-estimate-seconds''"
proof -
  let ?e = "ex_env False 20"
  let ?h = "onSyncProgressUpdated (ex_env False 10) 1 2 ex_vm"
  let ?vm = "?h\<lparr>m_done := 3, m_total := 4\<rparr>"
  have p: "fst (updateProgress_phase ?e ?vm) = Fin (3/4)"
    by (simp add: updateProgress_phase_fst spec_rawFraction_def ex_env_def dround_defs)
  have m: "fst (snd (updateProgress_phase ?e ?vm)) = ''loading-view-scaning-utxo''"
    by (simp add: updateProgress_phase_msg ex_env_def)
  have s: "(if getTimestamp ?e - m_lastUpdateTimestamp ?vm > kMaxEstimate then kMaxEstimate
             else getTimestamp ?e - m_lastUpdateTimestamp ?vm) = 10"
    by (simp add: ex_vm_half_fields kMaxEstimate_def) (simp add: ex_env_def)
  have est: "estimateSeconds 10 (Fin (3/4)) ?vm = Fin (7505999378950827 / 562949953421312)"
    by (simp add: estimateSeconds_unfold ex_vm_half_fields dbl_defs)
  note f = updateProgress_fields [OF p s est]
  show "m_progress ex_vm_advanced = Fin (3/4)"
    by (simp add: ex_vm_advanced_def onSyncProgressUpdated_def [of ?e] f ex_vm_half_fields
        dgt_def dlt_def)
  show "m_lastProgress ex_vm_advanced = Fin (1/2)"
    by (simp add: ex_vm_advanced_def onSyncProgressUpdated_def [of ?e] f ex_vm_half_fields
        dgt_def dlt_def)
  show "m_lastEstimateSeconds ex_vm_advanced = Fin (7505999378950827 / 562949953421312)"
    by (simp add: ex_vm_advanced_def onSyncProgressUpdated_def [of ?e] f dgt_def dlt_def)
  have ts: "getTimestamp ?e = 20" by (simp add: ex_env_def)
  show "m_lastUpdateTimestamp ex_vm_advanced = 20"
    by (simp add: ex_vm_advanced_def onSyncProgressUpdated_def [of ?e] f ts)
  show "m_progressMessage ex_vm_advanced =
     ''loading-view-scaning-utxo %.2lf%% loading-view-estimate-time%.0lf %sloading-view-estimate-seconds''"
    by (simp add: ex_vm_advanced_def onSyncProgressUpdated_def [of ?e] f m dgt_def dlt_def
        kSecondsInMinute_def) (simp add: ex_env_def)
qed

text \<open>
  The advanced view model at time 30: 5 of 8 gives the raw fraction \<open>5/8\<close>, below the
  stored \<open>3/4\<close>; the fraction stays, and the estimate moves from the double nearest
  to \<open>40/3\<close> to the double nearest to \<open>140/3\<close>.
  A fresh view model with empty counters has raw fraction 0 and keeps its estimate.
\<close>

theorem updateProgress_ratchet_after_projection_witness:
  "\<not> dgt (Fin (5/8)) (m_progress ex_vm_advanced) \<and> dgt (Fin (5/8)) (Fin 0) \<and>
   fst (updateProgress_phase (ex_env False 30) (ex_vm_advanced\<lparr>m_done := 5, m_total := 8\<rparr>)) =
     Fin (5/8) \<and>
   m_progress (updateProgress (ex_env False 30) (ex_vm_advanced\<lparr>m_done := 5, m_total := 8\<rparr>)) =
     Fin (3/4) \<and>
   m_lastEstimateSeconds ex_vm_advanced = Fin (7505999378950827 / 562949953421312) \<and>
   m_lastEstimateSeconds
     (updateProgress (ex_env False 30) (ex_vm_advanced\<lparr>m_done := 5, m_total := 8\<rparr>)) =
     Fin (6567749456581973 / 140737488355328) \<and>
   \<not> dgt (fst (updateProgress_phase (ex_env False 30) ex_vm)) (Fin 0) \<and>
   m_lastEstimateSeconds (updateProgress (ex_env False 30) ex_vm) = Fin 0"
proof -
  let ?e = "ex_env False 30"
  let ?vm = "ex_vm_advanced\<lparr>m_done := 5, m_total := 8\<rparr>"
  have p: "fst (updateProgress_phase ?e ?vm) = Fin (5/8)"
    by (simp add: updateProgress_phase_fst spec_rawFraction_def ex_env_def dround_defs)
  have ts: "getTimestamp ?e = 30" by (simp add: ex_env_def)
  have s: "fst (getSecondsFromLastUpdate ?e (snd (snd (updateProgress_phase ?e ?vm)))) = 10"
    by (simp add: getSecondsFromLastUpdate_fst updateProgress_phase_frame ex_vm_advanced_fields
        kMaxEstimate_def ts)
  have est: "estimateSeconds 10 (Fin (5/8)) ?vm = Fin (6567749456581973 / 140737488355328)"
    by (simp add: estimateSeconds_unfold ex_vm_advanced_fields dbl_defs)
  have p0: "fst (updateProgress_phase ?e ex_vm) = Fin 0"
    by (simp add: updateProgress_phase_fst spec_rawFraction_def ex_env_def ex_vm_simps dround_0)
  have c: "\<not> dgt (Fin (5/8)) (Fin (3/4))" "dgt (Fin (5/8)) (Fin 0)" "\<not> dgt (Fin 0) (Fin 0)"
    by (simp_all add: dgt_def dlt_def)
  have a: "m_progress (updateProgress ?e ?vm) = Fin (3/4)"
    "m_lastEstimateSeconds (updateProgress ?e ?vm) = Fin (6567749456581973 / 140737488355328)"
    using updateProgress_ratchet_after_projection [of ?e ?vm] c
    unfolding p s est by (simp_all add: ex_vm_advanced_fields)
  have b: "m_lastEstimateSeconds (updateProgress ?e ex_vm) = Fin 0"
    using updateProgress_ratchet_after_projection [of ?e ex_vm] c
    unfolding p0 by (simp add: ex_vm_simps)
  show ?thesis
    using a b c by (simp add: p p0 ex_vm_advanced_fields)
qed

text \<open>
  Claim C1 as stated fails. The advanced view model stores \<open>3/4\<close> and has
  \<open>m_lastProgress = 1/2\<close>. A scan update of 2 of 4 at time 30 has the raw fraction
  \<open>1/2\<close>, below the stored fraction and equal to \<open>m_lastProgress\<close>, and still reaches
  the projection: the divisor is zero, the stored estimate changes from the double
  nearest to \<open>40/3\<close> to infinity, and the message changes with it.
\<close>

theorem updateProgress_projection_without_advance:
  "fst (updateProgress_phase (ex_env False 30) (ex_vm_advanced\<lparr>m_done := 2, m_total := 4\<rparr>)) =
     Fin (1/2) \<and>
   m_progress ex_vm_advanced = Fin (3/4) \<and>
   m_lastProgress ex_vm_advanced = Fin (1/2) \<and>
   dsub (Fin (1/2)) (m_lastProgress ex_vm_advanced) = Fin 0 \<and>
   m_lastEstimateSeconds ex_vm_advanced = Fin (7505999378950827 / 562949953421312) \<and>
   dround (40 / 3) = Fin (7505999378950827 / 562949953421312) \<and>
   m_lastEstimateSeconds (onSyncProgressUpdated (ex_env False 30) 2 4 ex_vm_advanced) = PInf \<and>
   m_progress (onSyncProgressUpdated (ex_env False 30) 2 4 ex_vm_advanced) = Fin (3/4) \<and>
   m_progressMessage (onSyncProgressUpdated (ex_env False 30) 2 4 ex_vm_advanced) \<noteq>
     m_progressMessage ex_vm_advanced"
proof -
  let ?e = "ex_env False 30"
  let ?vm = "ex_vm_advanced\<lparr>m_done := 2, m_total := 4\<rparr>"
  have p: "fst (updateProgress_phase ?e ?vm) = Fin (1/2)"
    by (simp add: updateProgress_phase_fst spec_rawFraction_def ex_env_def dround_defs)
  have m: "fst (snd (updateProgress_phase ?e ?vm)) = ''loading-view-scaning-utxo''"
    by (simp add: updateProgress_phase_msg ex_env_def)
  have s: "(if getTimestamp ?e - m_lastUpdateTimestamp ?vm > kMaxEstimate then kMaxEstimate
             else getTimestamp ?e - m_lastUpdateTimestamp ?vm) = 10"
    by (simp add: ex_vm_advanced_fields kMaxEstimate_def) (simp add: ex_env_def)
  have z: "dsub (Fin (1/2)) (Fin (1/2)) = Fin 0"
    by (simp add: dsub_def dadd_def dround_0)
  have est: "estimateSeconds 10 (Fin (1/2)) ?vm = PInf"
    by (simp add: estimateSeconds_unfold ex_vm_advanced_fields z)
      (simp add: ddiv_def dadd_def dgt_def dlt_def dinf_def of_ts_dbl_def dround_defs)
  have r: "dround (40 / 3) = Fin (7505999378950827 / 562949953421312)"
    by (simp add: dround_defs)
  note f = updateProgress_fields [OF p s est]
  have a: "m_lastEstimateSeconds (onSyncProgressUpdated ?e 2 4 ex_vm_advanced) = PInf"
    by (simp add: onSyncProgressUpdated_def f dgt_def dlt_def)
  have b: "m_progress (onSyncProgressUpdated ?e 2 4 ex_vm_advanced) = Fin (3/4)"
    by (simp add: onSyncProgressUpdated_def f ex_vm_advanced_fields dgt_def dlt_def)
  have c: "m_progressMessage (onSyncProgressUpdated ?e 2 4 ex_vm_advanced) =
      ''loading-view-scaning-utxo %.2lf%% loading-view-estimate-time%.0lf %sloading-view-estimate-minutes''"
    by (simp add: onSyncProgressUpdated_def f m dgt_def dlt_def kSecondsInMinute_def)
      (simp add: ex_env_def)
  show ?thesis
    using p z r a b c by (simp add: ex_vm_advanced_fields)
qed

subsection \<open>The fraction stays in the unit interval\<close>

lemma dlt_asym: "dlt a b \<Longrightarrow> \<not> dlt b a"
  by (cases a; cases b) (simp_all add: dlt_def)

lemma dmin_at_most_1: "\<not> dgt (dmin (Fin 1) x) (Fin 1)"
  using dlt_asym [of x "Fin 1"] by (simp add: dmin_def dgt_def dlt_def)

lemma updateProgress_phase_candidate:
  "\<not> dgt (fst (updateProgress_phase e vm)) (Fin 1)"
  by (simp add: updateProgress_phase_def Let_def dmin_at_most_1) (simp add: dgt_def dlt_def)

lemma ratchet_in_unit_interval:
  assumes inv: "in_unit_interval m" and cap: "\<not> dgt v (Fin 1)"
  shows "in_unit_interval (if dgt v m then v else m)"
proof (cases "dgt v m")
  case False
  then show ?thesis using inv by simp
next
  case True
  then have lt: "dlt m v" by (simp add: dgt_def)
  have lo: "dle (Fin 0) v"
    using inv dlt_imp_dle [OF lt] dle_trans by (auto simp: in_unit_interval_def)
  have nn: "\<not> is_nan v" using dlt_not_nan [OF lt] by simp
  have hi: "dle v (Fin 1)"
    using cap nn by (cases v) (simp_all add: dgt_def dlt_def dle_def)
  show ?thesis using True lo hi by (simp add: in_unit_interval_def)
qed

lemma setProgress_progress:
  "m_progress (setProgress v vm) = (if dgt v (m_progress vm) then v else m_progress vm)"
  by (simp add: setProgress_def emit_def)

lemma setProgress_in_unit_interval:
  "in_unit_interval (m_progress vm) \<Longrightarrow> \<not> dgt v (Fin 1) \<Longrightarrow>
     in_unit_interval (m_progress (setProgress v vm))"
  using ratchet_in_unit_interval [of "m_progress vm" v]
  by (auto simp: setProgress_def emit_def split: if_splits)

lemma updateProgress_in_unit_interval:
  assumes "in_unit_interval (m_progress vm)"
  shows "in_unit_interval (m_progress (updateProgress e vm))"
  using ratchet_in_unit_interval [OF assms updateProgress_phase_candidate, of e vm]
  by (auto simp: updateProgress_progress split: if_splits)

lemma onGetWalletError_in_unit_interval:
  assumes "in_unit_interval (m_progress vm)" and "onGetWalletError e error vm = Inr vm'"
  shows "in_unit_interval (m_progress vm')"
  using assms updateProgress_in_unit_interval [OF assms(1), of e]
  by (cases error)
    (auto simp: onGetWalletError_def onGetWalletError_rest_def emit_def split: if_splits)

lemma step_in_unit_interval:
  assumes "in_unit_interval (m_progress vm)" and "write_at_most_one (e, ev)"
    and "step e ev vm = Inr vm'"
  shows "in_unit_interval (m_progress vm')"
proof (cases ev)
  case (SyncProgressUpdated d t)
  then show ?thesis
    using assms updateProgress_in_unit_interval [of "vm\<lparr>m_done := d, m_total := t\<rparr>" e]
    by (auto simp: onSyncProgressUpdated_def)
next
  case (NodeSyncProgressUpdated d t)
  then show ?thesis
    using assms updateProgress_in_unit_interval [of "vm\<lparr>m_nodeDone := d, m_nodeTotal := t\<rparr>" e]
    by (auto simp: onNodeSyncProgressUpdated_def)
next
  case (NodeConnectionChanged b)
  then show ?thesis using assms by (auto simp: onNodeConnectionChanged_def)
next
  case (GetWalletError error)
  then show ?thesis using assms onGetWalletError_in_unit_interval by auto
next
  case WalletResetedEvent
  then show ?thesis using assms by (auto simp: onWalletReseted_def emit_def)
next
  case (SetIsCreating b)
  then show ?thesis using assms by (auto simp: setIsCreating_def emit_def)
next
  case (SetProgressMessage x)
  then show ?thesis using assms by (auto simp: setProgressMessage_frame)
next
  case (SetProgress v)
  then show ?thesis using assms setProgress_in_unit_interval by auto
qed

lemma run_in_unit_interval:
  "in_unit_interval (m_progress vm) \<Longrightarrow> list_all write_at_most_one evs \<Longrightarrow>
     run evs vm = Inr vm' \<Longrightarrow> in_unit_interval (m_progress vm')"
proof (induction evs arbitrary: vm)
  case Nil
  then show ?case by simp
next
  case (Cons a evs)
  obtain e ev where a: "a = (e, ev)" by (cases a)
  from Cons.prems(3) obtain vm1 where s: "step e ev vm = Inr vm1" and r: "run evs vm1 = Inr vm'"
    by (auto simp: a split: sum.splits)
  have "in_unit_interval (m_progress vm1)"
    using step_in_unit_interval [OF Cons.prems(1) _ s] Cons.prems(2) by (simp add: a)
  then show ?case using Cons.IH r Cons.prems(2) by simp
qed

text \<open>
  Claim C9, as the code has it. The constructor stores 0. The fraction that
  \<open>updateProgress\<close> hands to \<open>setProgress\<close> is never greater than 1, and \<open>setProgress\<close>
  keeps the stored fraction unless the new one is greater. So after every run of
  events that returns, whatever the counters, clocks and errors, the stored fraction
  lies in \<open>[0, 1]\<close>, provided that no direct call of \<open>setProgress\<close> carries a value
  greater than 1: the setter itself has no upper bound.
\<close>

theorem progress_in_unit_interval:
  "m_progress (LoadingViewModel_ctor e0 ut lut lp les) = Fin 0 \<and>
   \<not> dgt (fst (updateProgress_phase e vm)) (Fin 1) \<and>
   (\<not> dgt (fst (updateProgress_phase e vm)) (m_progress vm) \<longrightarrow>
      m_progress (updateProgress e vm) = m_progress vm) \<and>
   (list_all write_at_most_one evs \<and>
    run evs (LoadingViewModel_ctor e0 ut lut lp les) = Inr vm' \<longrightarrow>
      in_unit_interval (m_progress vm'))"
proof -
  have cap: "\<not> dgt (fst (updateProgress_phase e vm)) (Fin 1)"
    by (rule updateProgress_phase_candidate)
  have init: "in_unit_interval (m_progress (LoadingViewModel_ctor e0 ut lut lp les))"
    by (simp add: LoadingViewModel_ctor_def in_unit_interval_def dle_def)
  show ?thesis
    using cap run_in_unit_interval [OF init, of evs vm']
    by (simp add: updateProgress_progress) (simp add: LoadingViewModel_ctor_def)
qed


text \<open>
  The example run ends with the stored fraction 1: the scan's 9 of 4 is capped, its
  \<open>-3\<close> of 4 and the direct write of \<open>1/2\<close> are dropped.
\<close>

theorem progress_in_unit_interval_witness:
  "list_all write_at_most_one ex_events \<and>
   progress_after (run ex_events (LoadingViewModel_ctor (ex_env False 0) 0 0 (Fin 0) (Fin 0))) =
     Some (Fin 1) \<and>
   in_unit_interval (Fin 1) \<and>
   fst (updateProgress_phase (ex_env False 30) (ex_vm\<lparr>m_done := - 3, m_total := 4\<rparr>)) =
     Fin (- 3 / 4) \<and>
   m_progress (updateProgress (ex_env False 30) (ex_vm\<lparr>m_done := - 3, m_total := 4\<rparr>)) = Fin 0"
proof -
  have w: "list_all write_at_most_one ex_events"
    by (simp add: ex_events_def dgt_def dlt_def)
  have one: "dround 1 = Fin 1" and half: "dround (1 / 2) = Fin (1 / 2)"
    and neg: "dround (- (3 / 4)) = Fin (- (3 / 4))"
    by (simp_all add: dround_defs)
  have env: "getRunLocalNode (ex_env True t) = True" "getRunLocalNode (ex_env False t) = False"
    for t
    by (simp_all add: ex_env_def)
  have "progress_after (run ex_events ex_vm) = Some (Fin 1)"
    by (simp add: ex_events_def progress_after_def onGetWalletError_def onGetWalletError_rest_def
        onSyncProgressUpdated_def onNodeSyncProgressUpdated_def emit_def
        updateProgress_progress updateProgress_counters updateProgress_phase_fst
        setProgress_progress setProgress_frame spec_rawFraction_def env ex_vm_simps
        one half neg dround_0 dgt_def dlt_def)
  then obtain S where r: "run ex_events (LoadingViewModel_ctor (ex_env False 0) 0 0 (Fin 0) (Fin 0)) = Inr S"
    and S: "m_progress S = Fin 1"
    by (cases "run ex_events ex_vm") (simp_all add: progress_after_def ex_vm_def)
  have p: "fst (updateProgress_phase (ex_env False 30) (ex_vm\<lparr>m_done := - 3, m_total := 4\<rparr>)) =
      Fin (- 3 / 4)"
    by (simp add: updateProgress_phase_fst spec_rawFraction_def env neg)
  show ?thesis
    using w r S p
      progress_in_unit_interval [of "ex_env False 0" 0 0 "Fin 0" "Fin 0" "ex_env False 30"
        "ex_vm\<lparr>m_done := - 3, m_total := 4\<rparr>" ex_events S]
    by (simp add: progress_after_def ex_vm_simps dgt_def dlt_def)
qed

text \<open>
  Claim C9 as stated fails: on a freshly constructed view model, one call
  \<open>setProgress(1.5)\<close> stores \<open>3/2\<close>, outside \<open>[0, 1]\<close>.
\<close>

theorem setProgress_above_one:
  "progress_after (run [(ex_env False 0, SetProgress (Fin (3/2)))]
      (LoadingViewModel_ctor (ex_env False 0) 0 0 (Fin 0) (Fin 0))) = Some (Fin (3/2)) \<and>
   m_progress (setProgress (Fin (3/2)) ex_vm) = Fin (3/2) \<and>
   \<not> in_unit_interval (Fin (3/2))"
  by (simp add: progress_after_def LoadingViewModel_ctor_def ex_vm_simps setProgress_def emit_def
      in_unit_interval_def dgt_def dlt_def dle_def)

end
